theory Spec2Isabelle
  imports Complex_Main "HOL-Library.Sublist"
begin

section \<open>Numbers and the vector library\<close>

text \<open>
  The game computes with JavaScript numbers. They are modelled as reals: rounding, infinities
  and NaN are outside the model. \<open>Math.sqrt\<close>, \<open>Math.sin\<close>, \<open>Math.cos\<close>, \<open>Math.asin\<close>,
  \<open>Math.abs\<close>, \<open>Math.sign\<close>, \<open>Math.min\<close>, \<open>Math.max\<close> and \<open>Math.floor\<close> are the real
  functions \<open>sqrt\<close>, \<open>sin\<close>, \<open>cos\<close>, \<open>arcsin\<close>, \<open>abs\<close>, \<open>sgn\<close>, \<open>min\<close>, \<open>max\<close> and \<open>floor\<close>.

  \<open>THREE.Vector3\<close> and \<open>THREE.Euler\<close> belong to the rendering library, not to the repository;
  the operations the simulation core calls are written out here after the library's documented
  semantics.
\<close>

datatype vec3 = Vec3 (vx: real) (vy: real) (vz: real)

datatype euler = Euler (ex: real) (ey: real) (ez: real)

definition vadd :: "vec3 \<Rightarrow> vec3 \<Rightarrow> vec3" where
  "vadd a b = Vec3 (vx a + vx b) (vy a + vy b) (vz a + vz b)"

definition vsub :: "vec3 \<Rightarrow> vec3 \<Rightarrow> vec3" where
  "vsub a b = Vec3 (vx a - vx b) (vy a - vy b) (vz a - vz b)"

definition multiplyScalar :: "vec3 \<Rightarrow> real \<Rightarrow> vec3" where
  "multiplyScalar v s = Vec3 (vx v * s) (vy v * s) (vz v * s)"

definition dot :: "vec3 \<Rightarrow> vec3 \<Rightarrow> real" where
  "dot a b = vx a * vx b + vy a * vy b + vz a * vz b"

definition crossVectors :: "vec3 \<Rightarrow> vec3 \<Rightarrow> vec3" where
  "crossVectors a b =
     Vec3 (vy a * vz b - vz a * vy b) (vz a * vx b - vx a * vz b) (vx a * vy b - vy a * vx b)"

definition lengthSq :: "vec3 \<Rightarrow> real" where
  "lengthSq v = vx v * vx v + vy v * vy v + vz v * vz v"

definition vlength :: "vec3 \<Rightarrow> real" where
  "vlength v = sqrt (lengthSq v)"

text \<open>\<open>normalize\<close> is \<open>divideScalar(this.length() || 1)\<close>: the zero vector stays zero.\<close>

definition normalize_vec :: "vec3 \<Rightarrow> vec3" where
  "normalize_vec v = (let l = vlength v in multiplyScalar v (1 / (if l = 0 then 1 else l)))"

text \<open>
  \<open>v.applyEuler(e)\<close> rotates \<open>v\<close> by the rotation matrix of the Euler angles in the default
  order XYZ.
\<close>

definition applyEuler :: "vec3 \<Rightarrow> euler \<Rightarrow> vec3" where
  "applyEuler v e =
    (let a = cos (ex e); b = sin (ex e); c = cos (ey e); d = sin (ey e);
         f = cos (ez e); g = sin (ez e)
     in Vec3 (c * f * vx v - c * g * vy v + d * vz v)
             ((a * g + b * f * d) * vx v + (a * f - b * g * d) * vy v - b * c * vz v)
             ((b * g - a * f * d) * vx v + (b * f + a * g * d) * vy v + a * c * vz v))"

text \<open>\<open>v.applyAxisAngle(k, t)\<close> for a unit axis \<open>k\<close> (Rodrigues' formula).\<close>

definition applyAxisAngle :: "vec3 \<Rightarrow> vec3 \<Rightarrow> real \<Rightarrow> vec3" where
  "applyAxisAngle v k t =
     vadd (vadd (multiplyScalar v (cos t)) (multiplyScalar (crossVectors k v) (sin t)))
          (multiplyScalar k (dot k v * (1 - cos t)))"

text \<open>\<open>Math.atan2(y, x)\<close>.\<close>

definition atan2 :: "real \<Rightarrow> real \<Rightarrow> real" where
  "atan2 y x =
     (if 0 < x then arctan (y / x)
      else if x < 0 then (if 0 \<le> y then arctan (y / x) + pi else arctan (y / x) - pi)
      else if 0 < y then pi / 2
      else if y < 0 then - (pi / 2)
      else 0)"

text \<open>
  The remainder operator \<open>a % b\<close> of JavaScript truncates the quotient toward zero, so the
  result has the sign of the dividend.
\<close>

definition trunc :: "real \<Rightarrow> int" where
  "trunc q = (if 0 \<le> q then \<lfloor>q\<rfloor> else - \<lfloor>- q\<rfloor>)"

definition js_rem :: "real \<Rightarrow> real \<Rightarrow> real" where
  "js_rem a b = a - b * of_int (trunc (a / b))"

text \<open>\<open>THREE.MathUtils.lerp(x, y, t)\<close>.\<close>

definition lerp :: "real \<Rightarrow> real \<Rightarrow> real \<Rightarrow> real" where
  "lerp x y t = (1 - t) * x + t * y"

section \<open>Entities\<close>

text \<open>
  Player and enemy planes share the fields \<open>position\<close>, \<open>velocity\<close>, \<open>rotation\<close> and \<open>speed\<close>,
  and both publish their pose to a mesh with a propeller. \<open>meshPosition\<close> is
  \<open>mesh.position\<close> and \<open>propellerRotation\<close> is \<open>propeller.rotation.x\<close>.
\<close>

record kinematic =
  position :: vec3
  velocity :: vec3

record plane = kinematic +
  rotation :: euler
  speed :: real
  meshPosition :: vec3
  propellerRotation :: real

subsection \<open>EnemyPlane (src/components/EnemyPlane.js)\<close>

datatype behavior = Patrol | Aggressive | Evasive | Diving | Formation

text \<open>
  A sub-mesh material: its colour and the \<open>_originalColor\<close> property that \<open>damage\<close> attaches
  while the white flash is shown.
\<close>

record material =
  color :: nat
  originalColor :: "nat option"

text \<open>
  A callback handed to \<open>setTimeout\<close> with its delay in milliseconds. The callbacks run
  between frames; the enemy keeps the ones that are still pending.
\<close>

datatype timeout = RevertColors nat | EndClimb nat

text \<open>
  \<open>ident\<close> is the identity of the JavaScript object (the game compares and removes enemies
  by reference); \<open>meshLookAt\<close> is the point the game last turned the mesh to;
  \<open>behaviorState\<close> is \<open>None\<close> where JavaScript has \<open>undefined\<close>.
\<close>

record enemy = plane +
  ident :: nat
  health :: real
  turnRate :: real
  changeDirectionTime :: real
  lastDirectionChange :: real
  targetDirection :: vec3
  minAltitude :: real
  maxAltitude :: real
  altitudeWarningThreshold :: real
  boundaryDetectionRadius :: real
  nearBoundary :: bool
  returningToCenter :: bool
  targetingPlayer :: bool
  targetingTime :: real
  maxTargetingTime :: real
  behaviorState :: "behavior option"
  behaviorTimer :: real
  behaviorDuration :: real
  isEvading :: bool
  evasionDirection :: real
  evasionTimer :: real
  evasionDuration :: real
  isDiving :: bool
  diveTimer :: real
  diveDuration :: real
  diveTarget :: "vec3 option"
  postDiveClimb :: bool
  isRolling :: bool
  rollTimer :: real
  rollDuration :: real
  rollProgress :: real
  currentSpeed :: real
  targetSpeed :: real
  speedChangeRate :: real
  currentTurnRate :: real
  maxTurnRate :: real
  turnAcceleration :: real
  planeColor :: nat
  meshRotation :: euler
  meshLookAt :: "vec3 option"
  materials :: "material list"
  timeouts :: "timeout list"

text \<open>
  What an enemy reads of the game: \<open>game.worldRadius\<close> and \<open>game.player.position\<close>
  (\<open>None\<close> when \<open>game.player\<close> is not set).
\<close>

record bounds =
  worldRadius :: real

record gview = bounds +
  playerPosition :: "vec3 option"

text \<open>
  The values of \<open>Math.random()\<close> drawn by the constructor, one field for each call in
  source order. Every draw lies in \<open>[0, 1)\<close>.
\<close>

record ctor_draws =
  cRotation :: real
  cSpeed :: real
  cTurnRate :: real
  cChangeTime :: real
  cDirX :: real
  cDirY :: real
  cDirZ :: real
  cTargeting :: real
  cMaxTargeting :: real
  cBehavior :: real
  cBehaviorDuration :: real

definition states :: "behavior list" where
  "states = [Patrol, Aggressive, Evasive, Diving, Formation]"

definition getRandomBehaviorState :: "real \<Rightarrow> behavior option" where
  "getRandomBehaviorState r =
     (let i = nat \<lfloor>r * real (length states)\<rfloor>
      in if 0 \<le> r \<and> i < length states then Some (states ! i) else None)"

text \<open>
  \<open>createMesh\<close> builds six sub-meshes (fuselage, cockpit, wings, tail, stabilizer, propeller),
  each with a material of its own, and copies position and rotation to the group.
\<close>

definition createMesh_materials :: "nat \<Rightarrow> material list" where
  "createMesh_materials c =
     map (\<lambda>k. \<lparr>color = k, originalColor = None\<rparr>) [c, 0x333333, c, c, c, 0x333333]"

definition EnemyPlane :: "gview \<Rightarrow> nat \<Rightarrow> vec3 \<Rightarrow> ctor_draws \<Rightarrow> enemy" where
  "EnemyPlane g i pos d =
    (let rot = Euler 0 (cRotation d * pi * 2) 0;
         sp = 8.32 + cSpeed d * 6.24;
         tr = 0.2 + cTurnRate d * 0.3
     in \<lparr>position = pos,
         velocity = Vec3 0 0 0,
         rotation = rot,
         speed = sp,
         meshPosition = pos,
         propellerRotation = 0,
         ident = i,
         health = 150,
         turnRate = tr,
         changeDirectionTime = 3 + cChangeTime d * 4,
         lastDirectionChange = 0,
         targetDirection = normalize_vec (Vec3 (cDirX d - 0.5) ((cDirY d - 0.5) * 0.1) (cDirZ d - 0.5)),
         minAltitude = 15,
         maxAltitude = 120,
         altitudeWarningThreshold = 110,
         boundaryDetectionRadius = worldRadius g * 0.7,
         nearBoundary = False,
         returningToCenter = False,
         targetingPlayer = (cTargeting d < 0.5),
         targetingTime = 0,
         maxTargetingTime = 5 + cMaxTargeting d * 5,
         behaviorState = getRandomBehaviorState (cBehavior d),
         behaviorTimer = 0,
         behaviorDuration = 3 + cBehaviorDuration d * 4,
         isEvading = False,
         evasionDirection = 1,
         evasionTimer = 0,
         evasionDuration = 0,
         isDiving = False,
         diveTimer = 0,
         diveDuration = 0,
         diveTarget = None,
         postDiveClimb = False,
         isRolling = False,
         rollTimer = 0,
         rollDuration = 0,
         rollProgress = 0,
         currentSpeed = sp * 0.5,
         targetSpeed = sp,
         speedChangeRate = 0.5,
         currentTurnRate = 0,
         maxTurnRate = tr,
         turnAcceleration = 0.1,
         planeColor = 0x4b5320,
         meshRotation = rot,
         meshLookAt = None,
         materials = createMesh_materials 0x4b5320,
         timeouts = []\<rparr>)"

text \<open>
  The readings one call of \<open>update\<close> takes from its environment: the clock
  (\<open>performance.now() / 1000\<close>) and the values of \<open>Math.random()\<close>, one field for each call
  site that the call can reach.
\<close>

record draws =
  now :: real
  rChangeTime :: real
  rDirX :: real
  rDirY :: real
  rDirZ :: real
  rManeuver :: real
  rType :: real
  rEvasionDuration :: real
  rEvasionDirection :: real
  rDiveDuration :: real
  rDiveX :: real
  rDiveZ :: real

definition startEvasiveManeuvers :: "real \<Rightarrow> real \<Rightarrow> enemy \<Rightarrow> enemy" where
  "startEvasiveManeuvers rDur rDir e =
     e\<lparr>isEvading := True,
       evasionTimer := 0,
       evasionDuration := 1 + rDur * 2,
       evasionDirection := (if rDir < 0.5 then 1 else - 1)\<rparr>"

definition startBarrelRoll :: "enemy \<Rightarrow> enemy" where
  "startBarrelRoll e =
     e\<lparr>isRolling := True, rollTimer := 0, rollDuration := 1.5, rollProgress := 0\<rparr>"

definition startDivingAttack :: "gview \<Rightarrow> draws \<Rightarrow> enemy \<Rightarrow> enemy" where
  "startDivingAttack g d e =
     (case playerPosition g of
        None \<Rightarrow> e
      | Some pp \<Rightarrow>
          if vy (position e) < 30 then e
          else if vy pp > maxAltitude e then e
          else
            (let t = Vec3 (vx pp + (rDiveX d - 0.5) * 20) (vy pp) (vz pp + (rDiveZ d - 0.5) * 20);
                 t' = (if vy t > maxAltitude e - 10 then Vec3 (vx t) (maxAltitude e - 10) (vz t)
                       else t)
             in e\<lparr>isDiving := True,
                  diveTimer := 0,
                  diveDuration := 2 + rDiveDuration d,
                  diveTarget := Some t'\<rparr>))"

definition startSpecialManeuver :: "gview \<Rightarrow> draws \<Rightarrow> enemy \<Rightarrow> enemy" where
  "startSpecialManeuver g d e =
     (if rType d < 0.4 \<and> playerPosition g \<noteq> None then startDivingAttack g d e
      else if rType d < 0.7 then startEvasiveManeuvers (rEvasionDuration d) (rEvasionDirection d) e
      else startBarrelRoll e)"

text \<open>
  \<open>damage\<close>: the draws are the three values of \<open>Math.random()\<close> the call can consume (the
  70\% test and the two of \<open>startEvasiveManeuvers\<close>). \<open>mesh.traverse\<close> visits the six
  sub-meshes; the revert is left pending as a timeout of 100 ms.
\<close>

definition flash :: "material \<Rightarrow> material" where
  "flash m = m\<lparr>originalColor := Some (color m), color := 0xffffff\<rparr>"

definition revert :: "material \<Rightarrow> material" where
  "revert m = (case originalColor m of
                 None \<Rightarrow> m
               | Some c \<Rightarrow> m\<lparr>color := c, originalColor := None\<rparr>)"

definition damage :: "real \<Rightarrow> real \<Rightarrow> real \<Rightarrow> real \<Rightarrow> enemy \<Rightarrow> enemy" where
  "damage amount rHit rDur rDir e =
     (let e1 = e\<lparr>health := health e - amount\<rparr>
      in if health e1 > 0 then
           (let e2 = e1\<lparr>materials := map flash (materials e1),
                        timeouts := timeouts e1 @ [RevertColors 100]\<rparr>
            in if rHit < 0.7 then startEvasiveManeuvers rDur rDir e2 else e2)
         else e1)"

text \<open>Running a pending callback when its time has come.\<close>

fun runTimeout :: "timeout \<Rightarrow> enemy \<Rightarrow> enemy" where
  "runTimeout (RevertColors ms) e = e\<lparr>materials := map revert (materials e)\<rparr>"
| "runTimeout (EndClimb ms) e = e\<lparr>postDiveClimb := False\<rparr>"

text \<open>
  A call either returns or throws. \<open>Thrown\<close> carries the state as the statements before the
  throw left it: JavaScript keeps those mutations.
\<close>

datatype 'a outcome = Returned 'a | Thrown 'a

definition setY :: "vec3 \<Rightarrow> real \<Rightarrow> vec3" where
  "setY v y = Vec3 (vx v) y (vz v)"

definition setEz :: "euler \<Rightarrow> real \<Rightarrow> euler" where
  "setEz r z = Euler (ex r) (ey r) z"

definition forward :: vec3 where
  "forward = Vec3 0 0 1"

definition updateRandomDirection :: "draws \<Rightarrow> enemy \<Rightarrow> enemy" where
  "updateRandomDirection d e =
     (let newDirection = normalize_vec (Vec3 (rDirX d - 0.5) ((rDirY d - 0.5) * 0.1) (rDirZ d - 0.5));
          e1 = e\<lparr>targetDirection := newDirection\<rparr>
      in if vy (position e1) < minAltitude e1 + 5 then
           e1\<lparr>targetDirection := setY (targetDirection e1) (\<bar>vy (targetDirection e1)\<bar> * 0.5)\<rparr>
         else if vy (position e1) > altitudeWarningThreshold e1 then
           (let altitudeRatio = (vy (position e1) - altitudeWarningThreshold e1) /
                                (maxAltitude e1 - altitudeWarningThreshold e1);
                descentFactor = 0.5 + altitudeRatio * 0.5
            in e1\<lparr>targetDirection :=
                     setY (targetDirection e1) (- \<bar>vy (targetDirection e1)\<bar> * descentFactor)\<rparr>)
         else e1)"

definition handleEvasiveManeuvers :: "real \<Rightarrow> enemy \<Rightarrow> enemy" where
  "handleEvasiveManeuvers delta e =
     (let e1 = e\<lparr>evasionTimer := evasionTimer e + delta\<rparr>
      in if evasionTimer e1 > evasionDuration e1 then e1\<lparr>isEvading := False\<rparr>
         else
           (let currentDirection = applyEuler forward (rotation e1);
                upVector = Vec3 0 1 0;
                sideVector = normalize_vec (crossVectors currentDirection upVector);
                oscillation = sin (evasionTimer e1 * 3) * evasionDirection e1 * 0.7;
                t1 = vadd currentDirection (multiplyScalar sideVector (oscillation * 0.6));
                t2 = setY t1 (vy t1 + sin (evasionTimer e1 * 2) * 0.15)
            in e1\<lparr>targetDirection := normalize_vec t2\<rparr>))"

text \<open>
  \<open>handleDivingAttack\<close> reads \<open>this.diveTarget\<close>, which the constructor sets to \<open>null\<close>:
  \<open>subVectors\<close> on \<open>null\<close> throws a TypeError.
\<close>

definition handleDivingAttack :: "real \<Rightarrow> enemy \<Rightarrow> enemy outcome" where
  "handleDivingAttack delta e =
     (let e1 = e\<lparr>diveTimer := diveTimer e + delta\<rparr>
      in if vy (position e1) > altitudeWarningThreshold e1 then
           Returned (e1\<lparr>isDiving := False, targetDirection := setY (targetDirection e1) (- 0.3)\<rparr>)
         else if diveTimer e1 > diveDuration e1 then
           Returned (e1\<lparr>isDiving := False,
                        postDiveClimb := True,
                        targetDirection := normalize_vec (setY (targetDirection e1) 0.2),
                        timeouts := timeouts e1 @ [EndClimb 3000]\<rparr>)
         else
           (case diveTarget e1 of
              None \<Rightarrow> Thrown e1
            | Some t \<Rightarrow>
                (let toDiveTarget = normalize_vec (vsub t (position e1));
                     diveProgress = diveTimer e1 / diveDuration e1;
                     diveAngle = - 0.2 - diveProgress * 0.3
                 in Returned (e1\<lparr>targetDirection := normalize_vec (setY toDiveTarget diveAngle)\<rparr>))))"

definition handleBarrelRoll :: "real \<Rightarrow> enemy \<Rightarrow> enemy" where
  "handleBarrelRoll delta e =
     (let e1 = e\<lparr>rollTimer := rollTimer e + delta\<rparr>
      in if rollTimer e1 > rollDuration e1 then
           e1\<lparr>isRolling := False, rotation := setEz (rotation e1) 0\<rparr>
         else
           (let p = rollTimer e1 / rollDuration e1
            in e1\<lparr>rollProgress := p, rotation := setEz (rotation e1) (sin (p * pi * 2) * pi)\<rparr>))"

text \<open>
  \<open>update\<close>, block by block in source order. Lines 151 to 195: an enemy beyond the world
  radius is wrapped around to the opposite side.
\<close>

definition wrapAround :: "gview \<Rightarrow> enemy \<Rightarrow> enemy" where
  "wrapAround g e =
     (let distanceFromCenter = sqrt (vx (position e) * vx (position e) + vz (position e) * vz (position e))
      in if distanceFromCenter > worldRadius g then
           (let angle = atan2 (vz (position e)) (vx (position e));
                newRadius = worldRadius g * 0.2;
                p = Vec3 (- cos angle * newRadius) (vy (position e)) (- sin angle * newRadius);
                t = targetDirection e
            in e\<lparr>position := p,
                 targetDirection := normalize_vec (Vec3 (- vx t) (vy t) (- vz t)),
                 returningToCenter := False,
                 isEvading := False,
                 isDiving := False,
                 isRolling := False,
                 meshPosition := p\<rparr>)
         else e)"

text \<open>Lines 197 to 205: a new random direction when the current one has been held long enough.\<close>

definition changeDirection :: "draws \<Rightarrow> enemy \<Rightarrow> enemy" where
  "changeDirection d e =
     (if now d - lastDirectionChange e > changeDirectionTime e then
        updateRandomDirection d
          (e\<lparr>lastDirectionChange := now d, changeDirectionTime := 2 + rChangeTime d * 3\<rparr>)
      else e)"

text \<open>Lines 207 to 214: the special maneuver in progress, evasion before dive before roll.\<close>

definition specialManeuvers :: "real \<Rightarrow> enemy \<Rightarrow> enemy outcome" where
  "specialManeuvers delta e =
     (if isEvading e then Returned (handleEvasiveManeuvers delta e)
      else if isDiving e then handleDivingAttack delta e
      else if isRolling e then Returned (handleBarrelRoll delta e)
      else Returned e)"

text \<open>
  Lines 216 to 257: yaw and pitch turn toward \<open>targetDirection\<close>, then the bank angle. The
  result carries \<open>currentDirection\<close> as recomputed after the turn (line 245).
\<close>

definition turn :: "real \<Rightarrow> enemy \<Rightarrow> enemy \<times> vec3" where
  "turn delta e =
     (let currentDirection = applyEuler forward (rotation e);
          turnAmount = turnRate e * delta;
          e1 = (if \<not> isRolling e \<and> dot currentDirection (targetDirection e) < 0.99 then
                  (let cross = crossVectors currentDirection (targetDirection e);
                       turnDirection = sgn (vy cross);
                       pitchDiff = arcsin (vy (targetDirection e)) - arcsin (vy currentDirection)
                   in e\<lparr>rotation := Euler (ex (rotation e) + pitchDiff * turnAmount * 0.7)
                                          (ey (rotation e) + turnDirection * turnAmount)
                                          (ez (rotation e))\<rparr>)
                else e);
          currentDirection' = applyEuler forward (rotation e1);
          turnIntensity = vy (crossVectors currentDirection' (targetDirection e1));
          e2 = (if \<not> isRolling e1 then
                  (let targetRoll = - turnIntensity * 0.6
                   in e1\<lparr>rotation := setEz (rotation e1) (ez (rotation e1) * 0.9 + targetRoll * 0.1)\<rparr>)
                else e1)
      in (e2, currentDirection'))"

text \<open>Lines 259 to 285: the speed moves toward its target, then the position is integrated.\<close>

definition targetSpeedOf :: "enemy \<Rightarrow> real" where
  "targetSpeedOf e =
     (if behaviorState e = Some Aggressive then speed e * 1.2
      else if behaviorState e = Some Diving \<and> isDiving e then speed e * 1.3
      else if behaviorState e = Some Evasive \<and> isEvading e then speed e * 1.1
      else if behaviorState e = Some Patrol then speed e * 0.9
      else speed e)"

definition integrate :: "real \<Rightarrow> vec3 \<Rightarrow> enemy \<Rightarrow> enemy" where
  "integrate delta currentDirection e =
     (let targetSpeed = targetSpeedOf e;
          e1 = (if currentSpeed e < targetSpeed then
                  e\<lparr>currentSpeed := min targetSpeed (currentSpeed e + speedChangeRate e * delta)\<rparr>
                else if currentSpeed e > targetSpeed then
                  e\<lparr>currentSpeed := max targetSpeed (currentSpeed e - speedChangeRate e * delta)\<rparr>
                else e);
          v = multiplyScalar currentDirection (currentSpeed e1)
      in e1\<lparr>velocity := v, position := vadd (position e1) (multiplyScalar v delta)\<rparr>)"

text \<open>Lines 287 to 308: the altitude limits.\<close>

definition enforceAltitude :: "enemy \<Rightarrow> enemy" where
  "enforceAltitude e =
     (let e1 = (if vy (position e) < minAltitude e \<and> \<not> isDiving e then
                  e\<lparr>position := setY (position e) (minAltitude e),
                    targetDirection := setY (targetDirection e) (\<bar>vy (targetDirection e)\<bar> * 0.5)\<rparr>
                else e);
          e2 = (if vy (position e1) > maxAltitude e1 then
                  e1\<lparr>position := setY (position e1) (maxAltitude e1),
                     targetDirection := setY (targetDirection e1) (- \<bar>vy (targetDirection e1)\<bar> * 0.5)\<rparr>
                else e1)
      in if vy (position e2) > altitudeWarningThreshold e2 \<and> \<not> isDiving e2 then
           (let altitudeRatio = (vy (position e2) - altitudeWarningThreshold e2) /
                                (maxAltitude e2 - altitudeWarningThreshold e2);
                downwardForce = - 0.2 - altitudeRatio * 0.3
            in e2\<lparr>targetDirection := setY (targetDirection e2) (min (vy (targetDirection e2)) downwardForce)\<rparr>)
         else e2)"

text \<open>Lines 310 to 317: the pose is published to the mesh and the propeller turns.\<close>

definition publish :: "real \<Rightarrow> enemy \<Rightarrow> enemy" where
  "publish delta e =
     e\<lparr>meshPosition := position e,
       meshRotation := rotation e,
       propellerRotation := propellerRotation e + delta * 15\<rparr>"

text \<open>Lines 319 to 322: with one chance in a hundred an idle enemy starts a maneuver.\<close>

definition maybeStartManeuver :: "gview \<Rightarrow> draws \<Rightarrow> enemy \<Rightarrow> enemy" where
  "maybeStartManeuver g d e =
     (if \<not> isEvading e \<and> \<not> isDiving e \<and> \<not> isRolling e \<and> rManeuver d < 0.01
      then startSpecialManeuver g d e else e)"

definition afterManeuvers :: "gview \<Rightarrow> draws \<Rightarrow> real \<Rightarrow> enemy \<Rightarrow> enemy" where
  "afterManeuvers g d delta e =
     (let (e1, currentDirection) = turn delta e
      in maybeStartManeuver g d (publish delta (enforceAltitude (integrate delta currentDirection e1))))"

definition update :: "gview \<Rightarrow> draws \<Rightarrow> real \<Rightarrow> enemy \<Rightarrow> enemy outcome" where
  "update g d delta e =
     (case specialManeuvers delta (changeDirection d (wrapAround g e)) of
        Thrown e' \<Rightarrow> Thrown e'
      | Returned e' \<Rightarrow> Returned (afterManeuvers g d delta e'))"

subsection \<open>Player (src/components/Player.js)\<close>

text \<open>
  A bullet of the player's list. \<open>mesh\<close> is the position of the bullet's mesh, \<open>None\<close> for an
  entry without a mesh (the loops skip such an entry). Scale and orientation of the mesh are
  rendering only.
\<close>

record bullet =
  mesh :: "vec3 option"
  bulletVelocity :: vec3
  createdAt :: real
  originalScale :: vec3
  direction :: vec3

record controls =
  throttleKey :: bool
  brake :: bool
  left :: bool
  right :: bool
  up :: bool
  down :: bool
  shootKey :: bool

datatype quaternion = Quaternion (qx: real) (qy: real) (qz: real) (qw: real)

definition setFromAxisAngle :: "vec3 \<Rightarrow> real \<Rightarrow> quaternion" where
  "setFromAxisAngle axis angle =
     (let s = sin (angle / 2)
      in Quaternion (vx axis * s) (vy axis * s) (vz axis * s) (cos (angle / 2)))"

definition multiplyQuaternions :: "quaternion \<Rightarrow> quaternion \<Rightarrow> quaternion" where
  "multiplyQuaternions a b =
     Quaternion (qx a * qw b + qw a * qx b + qy a * qz b - qz a * qy b)
                (qy a * qw b + qw a * qy b + qz a * qx b - qx a * qz b)
                (qz a * qw b + qw a * qz b + qx a * qy b - qy a * qx b)
                (qw a * qw b - qx a * qx b - qy a * qy b - qz a * qz b)"

definition applyQuaternion :: "vec3 \<Rightarrow> quaternion \<Rightarrow> vec3" where
  "applyQuaternion v q =
     (let tx = 2 * (qy q * vz v - qz q * vy v);
          ty = 2 * (qz q * vx v - qx q * vz v);
          tz = 2 * (qx q * vy v - qy q * vx v)
      in Vec3 (vx v + qw q * tx + qy q * tz - qz q * ty)
              (vy v + qw q * ty + qz q * tx - qx q * tz)
              (vz v + qw q * tz + qx q * ty - qy q * tx))"

text \<open>
  \<open>throttle\<close> is the field, \<open>throttleKey\<close> and \<open>shootKey\<close> are \<open>controls.throttle\<close> and
  \<open>controls.shoot\<close>. \<open>meshQuaternion\<close> is \<open>mesh.quaternion\<close>.
\<close>

record player = plane +
  maxSpeed :: real
  minSpeed :: real
  throttle :: real
  isGrounded :: bool
  acceleration :: vec3
  gravity :: vec3
  drag :: real
  lift :: real
  thrustPower :: real
  pitchRate :: real
  rollRate :: real
  yawRate :: real
  stabilizationRate :: real
  maxPitch :: real
  maxRoll :: real
  bullets :: "bullet list"
  bulletSpeed :: real
  bulletCooldown :: real
  lastShotTime :: real
  controls :: controls
  meshQuaternion :: quaternion

definition Player :: player where
  "Player =
     \<lparr>position = Vec3 0 1.0 0,
      velocity = Vec3 0 0 0,
      rotation = Euler 0 0 0,
      speed = 0,
      meshPosition = Vec3 0 1.0 0,
      propellerRotation = 0,
      maxSpeed = 100 / 3.6,
      minSpeed = 5,
      throttle = 0,
      isGrounded = True,
      acceleration = Vec3 0 0 0,
      gravity = Vec3 0 (- 9.81) 0,
      drag = 0.002,
      lift = 1.2,
      thrustPower = 100,
      pitchRate = 1.0,
      rollRate = 1.0,
      yawRate = 0.3,
      stabilizationRate = 0.95,
      maxPitch = pi / 6,
      maxRoll = pi / 2,
      bullets = [],
      bulletSpeed = 80,
      bulletCooldown = 0.1,
      lastShotTime = 0,
      controls = \<lparr>throttleKey = False, brake = False, left = False, right = False,
                   up = False, down = False, shootKey = False\<rparr>,
      meshQuaternion = Quaternion 0 0 0 1\<rparr>"

text \<open>The key handlers of the player; they run between frames.\<close>

definition setKey :: "string \<Rightarrow> bool \<Rightarrow> controls \<Rightarrow> controls" where
  "setKey k b c =
     (if k = ''w'' then c\<lparr>throttleKey := b\<rparr>
      else if k = ''s'' then c\<lparr>brake := b\<rparr>
      else if k = ''a'' \<or> k = ''ArrowLeft'' then c\<lparr>left := b\<rparr>
      else if k = ''d'' \<or> k = ''ArrowRight'' then c\<lparr>right := b\<rparr>
      else if k = ''ArrowUp'' then c\<lparr>up := b\<rparr>
      else if k = ''ArrowDown'' then c\<lparr>down := b\<rparr>
      else if k = '' '' then c\<lparr>shootKey := b\<rparr>
      else c)"

definition player_handleKeyDown :: "string \<Rightarrow> player \<Rightarrow> player" where
  "player_handleKeyDown k p = p\<lparr>controls := setKey k True (controls p)\<rparr>"

definition player_handleKeyUp :: "string \<Rightarrow> player \<Rightarrow> player" where
  "player_handleKeyUp k p = p\<lparr>controls := setKey k False (controls p)\<rparr>"

text \<open>\<open>updateRotation\<close>, lines 333 to 386.\<close>

definition updateRotation :: "real \<Rightarrow> player \<Rightarrow> player" where
  "updateRotation delta p =
     (let rotationSpeed = delta * 2.0;
          c = controls p;
          x0 = ex (rotation p);
          x1 = (if up c then max (x0 - pitchRate p * rotationSpeed) (- maxPitch p) else x0);
          x2 = (if down c then min (x1 + pitchRate p * rotationSpeed) (maxPitch p) else x1);
          x3 = (if \<not> up c \<and> \<not> down c then x2 * 0.95 else x2);
          y0 = ey (rotation p);
          z0 = ez (rotation p);
          (y1, z1) =
            (if left c \<or> right c then
               (let direction = (if left c then 1 else - 1);
                    targetRoll = direction * maxRoll p * 0.6;
                    rollDelta = rotationSpeed * rollRate p * 0.7;
                    z = lerp z0 targetRoll rollDelta
                in if speed p > minSpeed p then
                     (let yawAmount = min (rotationSpeed * yawRate p) (pi / 8 * delta)
                      in (y0 + direction * yawAmount, z))
                   else (y0, z))
             else (y0, z0 * (stabilizationRate p * 0.9)));
          y2 = js_rem (y1 + pi) (pi * 2) - pi
      in p\<lparr>rotation := Euler x3 y2 z1\<rparr>)"

text \<open>
  \<open>shoot\<close>, lines 400 to 462. \<open>t\<close> is the clock reading; \<open>front\<close> is the point \<open>(0, 0, 2)\<close>
  taken through \<open>mesh.matrixWorld\<close>, a matrix the renderer maintains.
\<close>

definition shoot :: "real \<Rightarrow> vec3 \<Rightarrow> player \<Rightarrow> player" where
  "shoot t front p =
     (if t - lastShotTime p < bulletCooldown p then p
      else
        (let fwd = normalize_vec (applyQuaternion (Vec3 0 0 1) (meshQuaternion p));
             b = \<lparr>mesh = Some front,
                  bulletVelocity = multiplyScalar fwd (bulletSpeed p),
                  createdAt = t,
                  originalScale = Vec3 1 1 1,
                  direction = fwd\<rparr>
         in p\<lparr>bullets := bullets p @ [b], lastShotTime := t\<rparr>))"

text \<open>
  \<open>updateBullets\<close>, lines 464 to 529, one function for each of its three loops. The first
  loop walks the list forward and steps back after a removal, so it visits every entry once.
  \<open>r\<close> is \<open>game.worldRadius\<close>; the test \<open>if (this.game.worldRadius)\<close> fails for zero.
\<close>

fun moveBullets :: "real \<Rightarrow> real \<Rightarrow> bullet list \<Rightarrow> bullet list" where
  "moveBullets r delta [] = []"
| "moveBullets r delta (b # bs) =
     (case mesh b of
        None \<Rightarrow> b # moveBullets r delta bs
      | Some p \<Rightarrow>
          (let p' = Vec3 (vx p + vx (bulletVelocity b) * delta)
                         (vy p + vy (bulletVelocity b) * delta)
                         (vz p + vz (bulletVelocity b) * delta);
               distanceFromCenter = sqrt (vx p' * vx p' + vz p' * vz p')
           in if r \<noteq> 0 \<and> distanceFromCenter > r then moveBullets r delta bs
              else b\<lparr>mesh := Some p'\<rparr> # moveBullets r delta bs))"

text \<open>The second loop walks the list from its end, so the tail is handled first.\<close>

fun expireBullets :: "real \<Rightarrow> bullet list \<Rightarrow> bullet list" where
  "expireBullets t [] = []"
| "expireBullets t (b # bs) =
     (let rest = expireBullets t bs
      in case mesh b of
           None \<Rightarrow> b # rest
         | Some p \<Rightarrow> (let age = t - createdAt b in if age > 3 then rest else b # rest))"

definition MAX_BULLETS :: nat where
  "MAX_BULLETS = 20"

definition limitBullets :: "bullet list \<Rightarrow> bullet list" where
  "limitBullets bs =
     (if length bs > MAX_BULLETS then
        (let bulletsToRemove = length bs - MAX_BULLETS in drop bulletsToRemove bs)
      else bs)"

definition updateBullets :: "real \<Rightarrow> real \<Rightarrow> real \<Rightarrow> bullet list \<Rightarrow> bullet list" where
  "updateBullets r t delta bs = limitBullets (expireBullets t (moveBullets r delta bs))"

text \<open>
  The readings one call of \<open>Player.update\<close> takes from its environment: the clock in \<open>shoot\<close>
  and in \<open>updateBullets\<close>, and the front position from the mesh's world matrix.
\<close>

record readings =
  shotClock :: real
  bulletClock :: real
  frontPosition :: vec3

text \<open>
  \<open>Player.update\<close>, lines 214 to 330. \<open>flight\<close> is the part up to the position update
  (lines 215 to 288): the throttle (lines 218 to 225), the forces (lines 227 to 258), the
  speed limit (lines 271 to 274), the ground and the position.
\<close>

definition newThrottle :: "real \<Rightarrow> player \<Rightarrow> real" where
  "newThrottle delta p =
     (if throttleKey (controls p) then min 1 (throttle p + delta * 2.0)
      else if brake (controls p) then max 0 (throttle p - delta * 2.0)
      else throttle p)"

definition flightAcceleration :: "real \<Rightarrow> real \<Rightarrow> player \<Rightarrow> vec3" where
  "flightAcceleration delta th p =
     (let a0 = Vec3 0 0 0;
          yAxis = Vec3 0 1 0;
          f0 = applyAxisAngle (Vec3 0 0 1) yAxis (ey (rotation p));
          pitchAxis = applyAxisAngle (Vec3 1 0 0) yAxis (ey (rotation p));
          fwd = normalize_vec (applyAxisAngle f0 pitchAxis (ex (rotation p)));
          a1 = (if th > 0.1 then
                  (let baseLift = multiplyScalar (Vec3 0 1 0) (9.81 * 0.7 * delta);
                       pitchEffect = - ex (rotation p) * 3.0;
                       pitchLift = Vec3 0 (pitchEffect * th * 20 * delta) 0
                   in vadd (vadd a0 baseLift) pitchLift)
                else a0);
          thrustForce = multiplyScalar fwd (th * thrustPower p * delta);
          a2 = vadd a1 thrustForce;
          gravityForce = multiplyScalar (gravity p) (delta * 0.7);
          a3 = vadd a2 gravityForce;
          dragForce = multiplyScalar (normalize_vec (velocity p)) (- drag p * lengthSq (velocity p))
      in vadd a3 dragForce)"

definition limitSpeed :: "real \<Rightarrow> vec3 \<Rightarrow> vec3" where
  "limitSpeed m v = (if vlength v > m then multiplyScalar (normalize_vec v) m else v)"

definition flight :: "real \<Rightarrow> player \<Rightarrow> player" where
  "flight delta p =
     (let th = newThrottle delta p;
          a = flightAcceleration delta th p;
          sp = vlength (velocity p);
          grounded1 = (if th > 0.5 then False else isGrounded p);
          v2 = limitSpeed (maxSpeed p) (vadd (velocity p) a);
          hitGround = (vy (position p) < 1.0 \<and> vy v2 < 0);
          pos1 = (if hitGround then setY (position p) 1.0 else position p);
          v3 = (if hitGround then Vec3 (vx v2 * 0.95) 0 (vz v2 * 0.95) else v2);
          grounded2 = (if hitGround then True else grounded1)
      in p\<lparr>acceleration := a,
           throttle := th,
           speed := sp,
           isGrounded := grounded2,
           velocity := v3,
           position := vadd pos1 (multiplyScalar v3 delta)\<rparr>)"

definition pose :: "real \<Rightarrow> player \<Rightarrow> player" where
  "pose delta p =
     (let yawQ = setFromAxisAngle (Vec3 0 1 0) (ey (rotation p));
          pitchQ = setFromAxisAngle (Vec3 1 0 0) (ex (rotation p) * 0.7);
          maxVisualRoll = pi / 2;
          enhancedRoll = ez (rotation p) * 1.4;
          clampedRoll = max (min enhancedRoll maxVisualRoll) (- maxVisualRoll);
          rollQ = setFromAxisAngle (Vec3 0 0 1) (- clampedRoll);
          finalRotation = multiplyQuaternions (multiplyQuaternions yawQ pitchQ) rollQ;
          propellerSpeed = delta * 15 * (0.5 + throttle p * 5)
      in p\<lparr>meshPosition := position p,
           meshQuaternion := finalRotation,
           propellerRotation := propellerRotation p + propellerSpeed\<rparr>)"

definition playerUpdate :: "real \<Rightarrow> readings \<Rightarrow> real \<Rightarrow> player \<Rightarrow> player" where
  "playerUpdate r rd delta p =
     (let p1 = pose delta (updateRotation delta (flight delta p));
          p2 = (if shootKey (controls p1) then shoot (shotClock rd) (frontPosition rd) p1 else p1)
      in p2\<lparr>bullets := updateBullets r (bulletClock rd) delta (bullets p2)\<rparr>)"

definition applyForce :: "vec3 \<Rightarrow> player \<Rightarrow> player" where
  "applyForce force p = p\<lparr>acceleration := vadd (acceleration p) force\<rparr>"

subsection \<open>Bird (src/components/Bird.js)\<close>

text \<open>The wings and the orientation of a bird's mesh are rendering only.\<close>

record bird = kinematic +
  age :: real
  birdColor :: "nat option"

record bird_ctor_draws =
  bOffsetX :: real
  bOffsetY :: real
  bOffsetZ :: real
  bVelX :: real
  bVelY :: real
  bVelZ :: real
  bColor :: real

definition colors :: "nat list" where
  "colors = [0x3399ff, 0xff9933, 0x33cc33, 0xffff66, 0xff6699]"

definition Bird :: "vec3 \<Rightarrow> bird_ctor_draws \<Rightarrow> bird" where
  "Bird pos d =
     \<lparr>position = pos,
      velocity = Vec3 ((bVelX d - 0.5) * 10) (bVelY d * 5 + 5) ((bVelZ d - 0.5) * 10),
      age = 0,
      birdColor = (let i = nat \<lfloor>bColor d * real (length colors)\<rfloor>
                   in if 0 \<le> bColor d \<and> i < length colors then Some (colors ! i) else None)\<rparr>"

record bird_draws =
  bChance :: real
  bKickX :: real
  bKickZ :: real

definition birdUpdate :: "bird_draws \<Rightarrow> real \<Rightarrow> bird \<Rightarrow> bird" where
  "birdUpdate d delta b =
     (let v1 = setY (velocity b) (vy (velocity b) - 9.81 * delta * 0.5);
          p1 = vadd (position b) (multiplyScalar v1 delta);
          bounce = (vy p1 < 2);
          p2 = (if bounce then setY p1 2 else p1);
          v2 = (if bounce then setY v1 (\<bar>vy v1\<bar> * 0.6) else v1);
          v3 = (if bChance d < 0.01 then
                  (let x = vx v2 + (bKickX d - 0.5) * 5;
                       z = vz v2 + (bKickZ d - 0.5) * 5;
                       horizontalSpeed = sqrt (x * x + z * z)
                   in if horizontalSpeed > 10
                      then Vec3 (x * (10 / horizontalSpeed)) (vy v2) (z * (10 / horizontalSpeed))
                      else Vec3 x (vy v2) z)
                else v2)
      in b\<lparr>age := age b + delta, velocity := v3, position := p2\<rparr>)"

section \<open>Game (src/Game.js)\<close>

record mountain =
  mountainPosition :: vec3
  radius :: real

text \<open>
  An entry of \<open>effectsToUpdate\<close> with the clock reading at its creation. An explosion lives
  for 2 seconds, a hit indicator for 0.2 seconds; particles and the flash are rendering only.
\<close>

datatype effect = Explosion real | HitIndicator real

datatype screen = VictoryScreen | GameOverScreen string

text \<open>
  \<open>spawned\<close> counts the enemy objects constructed so far and numbers them; \<open>screens\<close> lists
  the overlays shown by \<open>showVictoryScreen\<close> and \<open>showGameOverScreen\<close>; \<open>runway\<close> tells
  whether \<open>this.runway\<close> is set.
\<close>

record game = bounds +
  player :: "player option"
  enemies :: "enemy list"
  maxEnemies :: nat
  birds :: "bird list"
  maxBirds :: nat
  trees :: "vec3 list"
  mountains :: "mountain list"
  effectsToUpdate :: "effect list"
  maxEffects :: nat
  runway :: bool
  runwayWidth :: real
  runwayLength :: real
  boundaryWarningRadius :: real
  boundaryPushRadius :: real
  boundaryWarningActive :: bool
  rescuedBirds :: int
  gameOver :: bool
  paused :: bool
  keysPressed :: "string \<Rightarrow> bool"
  spawned :: nat
  screens :: "screen list"

record spawn_draws =
  sAngle :: real
  sDistance :: real
  sHeight :: real
  sCtor :: ctor_draws

datatype key_event = KeyDown string | KeyUp string

text \<open>
  What one frame takes from its environment. The draws of \<open>Math.random()\<close> are indexed by
  the call they belong to: \<open>enemyDraws i\<close> for the update of the enemy at index \<open>i\<close>,
  \<open>hitDraws i j\<close> for the damage that bullet \<open>j\<close> does to enemy \<open>i\<close>, \<open>birdCountDraw i\<close>,
  \<open>releaseDraws i k\<close> and \<open>spawnDraws i\<close> for the destruction of enemy \<open>i\<close> (the number of
  birds, the \<open>k\<close>-th bird, the replacement), \<open>refillDraws n\<close> for the enemy created when
  the list has \<open>n\<close> entries, \<open>birdDraws i\<close> for the update of the bird at index \<open>i\<close>.
\<close>

record frame =
  events :: "key_event list"
  elapsed :: real
  effectsClock :: real
  createClock :: real
  playerReadings :: readings
  enemyDraws :: "nat \<Rightarrow> draws"
  hitDraws :: "nat \<Rightarrow> nat \<Rightarrow> real \<times> real \<times> real"
  birdCountDraw :: "nat \<Rightarrow> real"
  releaseDraws :: "nat \<Rightarrow> nat \<Rightarrow> bird_ctor_draws"
  spawnDraws :: "nat \<Rightarrow> spawn_draws"
  refillDraws :: "nat \<Rightarrow> spawn_draws"
  birdDraws :: "nat \<Rightarrow> bird_draws"

definition view :: "game \<Rightarrow> gview" where
  "view g = \<lparr>worldRadius = worldRadius g, playerPosition = map_option position (player g)\<rparr>"

definition createNewEnemy :: "spawn_draws \<Rightarrow> game \<Rightarrow> game" where
  "createNewEnemy d g =
     (let angle = sAngle d * pi * 2;
          distance = 50 + sDistance d * 100;
          x = sin angle * distance;
          z = cos angle * distance;
          y = 30 + sHeight d * 70;
          distanceFromCenter = sqrt (x * x + z * z);
          pos = (if distanceFromCenter > worldRadius g * 0.9 then
                   (let directionToCenter = normalize_vec (Vec3 (- x) 0 (- z));
                        safeDistance = worldRadius g * 0.5
                    in Vec3 (vx directionToCenter * safeDistance) y (vz directionToCenter * safeDistance))
                 else Vec3 x y z);
          e = EnemyPlane (view g) (spawned g) pos (sCtor d)
      in g\<lparr>enemies := enemies g @ [e], spawned := Suc (spawned g)\<rparr>)"

definition createExplosion :: "real \<Rightarrow> game \<Rightarrow> game" where
  "createExplosion t g = g\<lparr>effectsToUpdate := effectsToUpdate g @ [Explosion t]\<rparr>"

definition createHitIndicator :: "real \<Rightarrow> game \<Rightarrow> game" where
  "createHitIndicator t g = g\<lparr>effectsToUpdate := effectsToUpdate g @ [HitIndicator t]\<rparr>"

text \<open>\<open>releaseBirds\<close>, lines 1498 to 1534; the counter display is rendering only.\<close>

fun newBirds :: "(nat \<Rightarrow> bird_ctor_draws) \<Rightarrow> vec3 \<Rightarrow> nat \<Rightarrow> nat \<Rightarrow> bird list" where
  "newBirds ds pos k 0 = []"
| "newBirds ds pos k (Suc n) =
     (let d = ds k;
          offset = Vec3 ((bOffsetX d - 0.5) * 2) ((bOffsetY d - 0.5) * 2) ((bOffsetZ d - 0.5) * 2)
      in Bird (vadd pos offset) d # newBirds ds pos (Suc k) n)"

definition releaseBirds :: "(nat \<Rightarrow> bird_ctor_draws) \<Rightarrow> vec3 \<Rightarrow> int \<Rightarrow> game \<Rightarrow> game" where
  "releaseBirds ds pos count g =
     g\<lparr>rescuedBirds := rescuedBirds g + count,
       birds := birds g @ newBirds ds pos 0 (nat count)\<rparr>"

text \<open>
  \<open>handleEnemyDestruction(enemy, index)\<close>, lines 1177 to 1205; \<open>splice(index, 1)\<close> removes
  the entry at \<open>index\<close>. \<open>playExplosionSound\<close> (line 2816) reads \<open>this.player.audioListener\<close>
  and plays a sound, which is not modelled; without a player that read raises a TypeError,
  which the \<open>try\<close> of the method catches after the explosion has been created.
\<close>

definition handleEnemyDestruction :: "frame \<Rightarrow> enemy \<Rightarrow> nat \<Rightarrow> game \<Rightarrow> game" where
  "handleEnemyDestruction f e index g =
     (let g1 = createExplosion (createClock f) g
      in case player g1 of
           None \<Rightarrow> g1
         | Some p \<Rightarrow>
             (let birdCount = min 4 (\<lfloor>birdCountDraw f index * 3\<rfloor> + 2);
                  availableBirdSlots = max 0 (int (maxBirds g1) - int (length (birds g1)));
                  birdsToRelease = min birdCount availableBirdSlots;
                  g2 = (if birdsToRelease > 0
                        then releaseBirds (releaseDraws f index) (position e) birdsToRelease g1
                        else g1);
                  g3 = g2\<lparr>enemies := take index (enemies g2) @ drop (Suc index) (enemies g2)\<rparr>
              in createNewEnemy (spawnDraws f index) g3))"

text \<open>
  \<open>checkBulletHits(enemy, enemyIndex)\<close>, lines 1207 to 1249. The enemy object is the entry
  at \<open>enemyIndex\<close> of the enemy list (the caller passes both). The loop runs from the last
  bullet to the first; \<open>bulletLoop f i n\<close> is the loop with \<open>j = n - 1\<close> still to do.
\<close>

definition enemyRadius :: real where
  "enemyRadius = 8"

definition removeAt :: "nat \<Rightarrow> 'a list \<Rightarrow> 'a list" where
  "removeAt i xs = take i xs @ drop (Suc i) xs"

fun bulletLoop :: "frame \<Rightarrow> nat \<Rightarrow> nat \<Rightarrow> game \<Rightarrow> game" where
  "bulletLoop f i 0 g = g"
| "bulletLoop f i (Suc j) g =
     (case player g of
        None \<Rightarrow> g
      | Some p \<Rightarrow>
          if j < length (bullets p) then
            (case mesh (bullets p ! j) of
               None \<Rightarrow> bulletLoop f i j g
             | Some bp \<Rightarrow>
                 (let enemy = enemies g ! i;
                      dx = vx bp - vx (position enemy);
                      dy = vy bp - vy (position enemy);
                      dz = vz bp - vz (position enemy);
                      distanceSq = dx * dx + dy * dy + dz * dz
                  in if distanceSq < enemyRadius * enemyRadius then
                       (let g1 = createHitIndicator (createClock f) g;
                            (rHit, rDur, rDir) = hitDraws f i j;
                            enemy' = damage 25 rHit rDur rDir enemy;
                            g2 = g1\<lparr>enemies := (enemies g1)[i := enemy'],
                                    player := Some (p\<lparr>bullets := removeAt j (bullets p)\<rparr>)\<rparr>
                        in if health enemy' \<le> 0 then handleEnemyDestruction f enemy' i g2
                           else bulletLoop f i j g2)
                     else bulletLoop f i j g))
          else bulletLoop f i j g)"

definition checkBulletHits :: "frame \<Rightarrow> nat \<Rightarrow> game \<Rightarrow> game" where
  "checkBulletHits f enemyIndex g =
     (case player g of
        None \<Rightarrow> g
      | Some p \<Rightarrow> if length (bullets p) = 0 then g
                  else bulletLoop f enemyIndex (length (bullets p)) g)"

text \<open>
  \<open>updateEnemies\<close>, lines 1131 to 1175. \<open>enemyLoop f delta n\<close> is the loop with
  \<open>i = n - 1\<close> still to do. \<open>checkWorldBounds(enemy)\<close> changes nothing for an object other
  than the player. An exception out of \<open>enemy.update\<close> leaves the method.
\<close>

definition syncMesh :: "enemy \<Rightarrow> enemy" where
  "syncMesh e =
     (let e1 = e\<lparr>meshPosition := position e\<rparr>
      in if vlength (velocity e1) > 0.1 then
           e1\<lparr>meshLookAt := Some (vadd (position e1) (normalize_vec (velocity e1)))\<rparr>
         else e1)"

fun enemyLoop :: "frame \<Rightarrow> real \<Rightarrow> nat \<Rightarrow> game \<Rightarrow> game outcome" where
  "enemyLoop f delta 0 g = Returned g"
| "enemyLoop f delta (Suc i) g =
     (if i < length (enemies g) then
        (case update (view g) (enemyDraws f i) delta (enemies g ! i) of
           Thrown e' \<Rightarrow> Thrown (g\<lparr>enemies := (enemies g)[i := e']\<rparr>)
         | Returned e' \<Rightarrow>
             (let enemy = syncMesh e';
                  g1 = g\<lparr>enemies := (enemies g)[i := enemy]\<rparr>
              in if health enemy \<le> 0 then enemyLoop f delta i (handleEnemyDestruction f enemy i g1)
                 else enemyLoop f delta i (checkBulletHits f i g1)))
      else enemyLoop f delta i g)"

function refill :: "frame \<Rightarrow> game \<Rightarrow> game" where
  "refill f g =
     (if length (enemies g) < maxEnemies g
      then refill f (createNewEnemy (refillDraws f (length (enemies g))) g)
      else g)"
  by pat_completeness auto
termination
  by (relation "measure (\<lambda>(f, g). maxEnemies g - length (enemies g))")
     (auto simp: createNewEnemy_def Let_def)

definition updateEnemies :: "frame \<Rightarrow> real \<Rightarrow> game \<Rightarrow> game outcome" where
  "updateEnemies f delta g =
     (case enemyLoop f delta (length (enemies g)) g of
        Thrown g' \<Rightarrow> Thrown g'
      | Returned g' \<Rightarrow> Returned (refill f g'))"

text \<open>
  \<open>updateEffects\<close>, lines 2472 to 2523: the oldest entries beyond the cap go first, then
  every effect whose update callback reports the end of its life. \<open>t\<close> is the clock as the
  callbacks read it.
\<close>

fun keepAlive :: "real \<Rightarrow> effect \<Rightarrow> bool" where
  "keepAlive t (Explosion c) = (t - c < 2)"
| "keepAlive t (HitIndicator c) = (t - c < 0.2)"

definition updateEffects :: "real \<Rightarrow> game \<Rightarrow> game" where
  "updateEffects t g =
     (let es = effectsToUpdate g;
          es1 = (if length es > maxEffects g then drop (length es - maxEffects g) es else es)
      in g\<lparr>effectsToUpdate := filter (keepAlive t) es1\<rparr>)"

text \<open>
  \<open>checkWorldBounds(object)\<close>, lines 1884 to 1925, for the player; for every other object
  the method changes nothing. \<open>velocity.length()\<close> is read again after \<open>velocity.x\<close> has
  been assigned.
\<close>

definition checkWorldBounds :: "real \<Rightarrow> player \<Rightarrow> player" where
  "checkWorldBounds r p =
     (let distanceFromCenter = sqrt (vx (position p) * vx (position p) + vz (position p) * vz (position p))
      in if distanceFromCenter > r then
           (let dirX = - vx (position p) / distanceFromCenter;
                dirZ = - vz (position p) / distanceFromCenter;
                pushbackDistance = 0.05 * r;
                pos = Vec3 (vx (position p) + dirX * pushbackDistance) (vy (position p))
                           (vz (position p) + dirZ * pushbackDistance);
                v = velocity p;
                dotProduct = vx v * (- dirX) + vz v * (- dirZ);
                v' = (if dotProduct > 0 then
                        (let v1 = Vec3 (dirX * vlength v * 0.8) (vy v) (vz v)
                         in Vec3 (vx v1) (vy v1) (dirZ * vlength v1 * 0.8))
                      else v)
            in p\<lparr>position := pos, velocity := v', meshPosition := pos\<rparr>)
         else p)"

definition showGameOverScreen :: "string \<Rightarrow> game \<Rightarrow> game" where
  "showGameOverScreen message g = g\<lparr>screens := screens g @ [GameOverScreen message]\<rparr>"

definition showVictoryScreen :: "game \<Rightarrow> game" where
  "showVictoryScreen g = g\<lparr>screens := screens g @ [VictoryScreen]\<rparr>"

text \<open>\<open>checkTerrainCollisions\<close>, lines 2534 to 2605.\<close>

definition isPositionOverRunway :: "game \<Rightarrow> real \<Rightarrow> real \<Rightarrow> bool" where
  "isPositionOverRunway g x z =
     (if \<not> runway g then False
      else (let halfWidth = runwayWidth g / 2; halfLength = runwayLength g / 2
            in x \<ge> - halfWidth \<and> x \<le> halfWidth \<and> z \<ge> - halfLength \<and> z \<le> halfLength))"

definition hitsMountain :: "vec3 \<Rightarrow> mountain \<Rightarrow> bool" where
  "hitsMountain playerPos m =
     (let dx = vx playerPos - vx (mountainPosition m);
          dz = vz playerPos - vz (mountainPosition m);
          horizontalDist = sqrt (dx * dx + dz * dz)
      in horizontalDist < radius m \<and> vy playerPos < (1 - horizontalDist / radius m) * 150)"

definition hitsTree :: "vec3 \<Rightarrow> vec3 \<Rightarrow> bool" where
  "hitsTree playerPos treePos =
     (let dx = vx playerPos - vx treePos;
          dz = vz playerPos - vz treePos;
          horizontalDist = sqrt (dx * dx + dz * dz)
      in horizontalDist < 2 + 3 \<and> vy playerPos < 15)"

definition crash :: "real \<Rightarrow> string \<Rightarrow> game \<Rightarrow> game" where
  "crash t message g = showGameOverScreen message ((createExplosion t g)\<lparr>gameOver := True\<rparr>)"

definition checkTerrainCollisions :: "frame \<Rightarrow> game \<Rightarrow> game" where
  "checkTerrainCollisions f g =
     (case player g of
        None \<Rightarrow> g
      | Some p \<Rightarrow>
          (let playerPos = position p
           in if vy playerPos < 5 \<and> \<not> isPositionOverRunway g (vx playerPos) (vz playerPos)
                 \<and> vy playerPos < 2
              then crash (createClock f) ''You crashed into the ground!'' g
              else if list_ex (hitsMountain playerPos) (mountains g)
              then crash (createClock f) ''You crashed into a mountain!'' g
              else if list_ex (hitsTree playerPos) (trees g)
              then crash (createClock f) ''You crashed into a tree!'' g
              else g))"

text \<open>
  \<open>updateBirds\<close>, lines 1251 to 1356. \<open>birdLoop f delta pp n\<close> is the loop with
  \<open>i = n - 1\<close> still to do; \<open>pp\<close> is \<open>this.player.position\<close>. Without a player the distance
  test throws, and the handler around the loop body removes the bird.
\<close>

definition distanceTo :: "vec3 \<Rightarrow> vec3 \<Rightarrow> real" where
  "distanceTo a b = vlength (vsub a b)"

fun birdLoop :: "frame \<Rightarrow> real \<Rightarrow> vec3 option \<Rightarrow> nat \<Rightarrow> bird list \<Rightarrow> bird list" where
  "birdLoop f delta pp 0 bs = bs"
| "birdLoop f delta pp (Suc i) bs =
     (if i < length bs then
        (let b = birdUpdate (birdDraws f i) delta (bs ! i)
         in if age b > 15 then birdLoop f delta pp i (removeAt i bs)
            else (case pp of
                    None \<Rightarrow> birdLoop f delta pp i (removeAt i bs)
                  | Some q \<Rightarrow>
                      if distanceTo (position b) q > 500 then birdLoop f delta pp i (removeAt i bs)
                      else birdLoop f delta pp i (bs[i := b])))
      else birdLoop f delta pp i bs)"

definition updateBirds :: "frame \<Rightarrow> real \<Rightarrow> game \<Rightarrow> game" where
  "updateBirds f delta g =
     (if length (birds g) = 0 then g
      else
        (let bs = birdLoop f delta (map_option position (player g)) (length (birds g)) (birds g);
             softLimit = nat \<lfloor>real (maxBirds g) * 0.8\<rfloor>
         in g\<lparr>birds := (if length bs > softLimit then drop (length bs - softLimit) bs else bs)\<rparr>))"

text \<open>
  \<open>updateBoundaryEffects\<close>, lines 2057 to 2175; sounds and the warning element are not
  modelled. \<open>safetyTeleport\<close> is the safety check (lines 2071 to 2091), \<open>pushBack\<close> the
  push beyond the push radius (lines 2116 to 2147), \<open>forceShoot\<close> lines 2149 to 2153.
  \<open>playerPos\<close> is the player's position object itself, so after the teleport it reads the
  new position. \<open>directionToCenter.multiplyScalar(pushFactor)\<close> scales the vector in place:
  the position and velocity corrections that follow read the scaled vector.
\<close>

definition safetyTeleport :: "real \<Rightarrow> player \<Rightarrow> player" where
  "safetyTeleport r p =
     (let safeDistance = r * 0.8;
          angle = atan2 (vz (position p)) (vx (position p));
          pos = Vec3 (cos angle * safeDistance) (vy (position p)) (sin angle * safeDistance)
      in p\<lparr>position := pos,
           velocity := Vec3 (vx (velocity p) * 0.1) (vy (velocity p)) (vz (velocity p) * 0.1),
           meshPosition := pos\<rparr>)"

definition pushBack :: "real \<Rightarrow> real \<Rightarrow> real \<Rightarrow> player \<Rightarrow> player" where
  "pushBack r pushRadius distanceFromCenter p =
     (let unit = normalize_vec (Vec3 (- vx (position p)) 0 (- vz (position p)));
          pushFactor = (distanceFromCenter - pushRadius) * 1.5;
          directionToCenter = multiplyScalar unit pushFactor;
          pa = applyForce directionToCenter p
      in if distanceFromCenter > r * 0.98 then
           (let pushbackDistance = 0.02 * r;
                pos = Vec3 (vx (position pa) + vx directionToCenter * pushbackDistance)
                           (vy (position pa))
                           (vz (position pa) + vz directionToCenter * pushbackDistance);
                v = velocity pa;
                dotProduct = vx v * (- vx directionToCenter) + vz v * (- vz directionToCenter);
                v' = (if dotProduct > 0 then
                        (let v1 = Vec3 (vx directionToCenter * vlength v * 0.8) (vy v) (vz v)
                         in Vec3 (vx v1) (vy v1) (vz directionToCenter * vlength v1 * 0.8))
                      else v)
            in pa\<lparr>position := pos, meshPosition := pos, velocity := v'\<rparr>)
         else pa)"

definition forceShoot :: "bool \<Rightarrow> player \<Rightarrow> player" where
  "forceShoot spaceDown p =
     (if \<not> shootKey (controls p) \<and> spaceDown
      then p\<lparr>controls := (controls p)\<lparr>shootKey := True\<rparr>\<rparr> else p)"

definition updateBoundaryEffects :: "game \<Rightarrow> game" where
  "updateBoundaryEffects g =
     (case player g of
        None \<Rightarrow> g
      | Some p0 \<Rightarrow>
          (let d0 = sqrt (vx (position p0) * vx (position p0) + vz (position p0) * vz (position p0));
               p1 = (if d0 > worldRadius g * 1.1 then safetyTeleport (worldRadius g) p0 else p0);
               distanceFromCenter =
                 (if d0 > worldRadius g * 1.1
                  then sqrt (vx (position p1) * vx (position p1) + vz (position p1) * vz (position p1))
                  else d0)
           in if distanceFromCenter > boundaryWarningRadius g then
                (let p2 = (if distanceFromCenter > boundaryPushRadius g
                           then pushBack (worldRadius g) (boundaryPushRadius g) distanceFromCenter p1
                           else p1)
                 in g\<lparr>boundaryWarningActive := True,
                      player := Some (forceShoot (keysPressed g '' '') p2)\<rparr>)
              else g\<lparr>boundaryWarningActive := False, player := Some p1\<rparr>))"

text \<open>
  \<open>Game.update\<close>, lines 1016 to 1075. Camera, physics world, clouds and radar do not touch
  the state modelled here.
\<close>

definition updatePlayer :: "frame \<Rightarrow> real \<Rightarrow> game \<Rightarrow> game \<times> bool" where
  "updatePlayer f delta g =
     (case player g of
        None \<Rightarrow> (g, False)
      | Some p \<Rightarrow>
          (let p1 = playerUpdate (worldRadius g) (playerReadings f) delta p;
               p2 = checkWorldBounds (worldRadius g) p1;
               g1 = checkTerrainCollisions f (g\<lparr>player := Some p2\<rparr>)
           in if vy (position p2) < - 50 then
                (showGameOverScreen ''Your plane was destroyed!''
                   (createExplosion (createClock f) (g1\<lparr>gameOver := True\<rparr>)), True)
              else (g1, False)))"

definition game_update :: "frame \<Rightarrow> real \<Rightarrow> game \<Rightarrow> game outcome" where
  "game_update f delta g0 =
     (let g = updateEffects (effectsClock f) g0
      in if paused g \<or> gameOver g then Returned g
         else if rescuedBirds g \<ge> 100 then Returned (showVictoryScreen (g\<lparr>gameOver := True\<rparr>))
         else
           (let (g1, destroyed) = updatePlayer f delta g
            in if destroyed then Returned g1
               else (case updateEnemies f delta g1 of
                       Thrown g2 \<Rightarrow> Thrown g2
                     | Returned g2 \<Rightarrow> Returned (updateBoundaryEffects (updateBirds f delta g2)))))"

text \<open>
  \<open>animate\<close>, lines 1104 to 1129: one frame. The handler around the body catches what
  \<open>update\<close> throws, and the state stays as the throw left it.
\<close>

definition animate :: "frame \<Rightarrow> game \<Rightarrow> game" where
  "animate f g =
     (let delta = min (elapsed f) 0.1
      in if gameOver g then updateEffects (effectsClock f) g
         else (case game_update f delta g of Returned g' \<Rightarrow> g' | Thrown g' \<Rightarrow> g'))"

text \<open>The key handlers of the game and of the player run between frames.\<close>

fun handleKey :: "key_event \<Rightarrow> game \<Rightarrow> game" where
  "handleKey (KeyDown k) g =
     g\<lparr>keysPressed := (keysPressed g)(k := True),
       player := map_option (player_handleKeyDown k) (player g)\<rparr>"
| "handleKey (KeyUp k) g =
     g\<lparr>keysPressed := (keysPressed g)(k := False),
       player := map_option (player_handleKeyUp k) (player g)\<rparr>"

definition frameStep :: "game \<Rightarrow> frame \<Rightarrow> game" where
  "frameStep g f = animate f (fold handleKey (events f) g)"

text \<open>A run of the game: the frames in order.\<close>

definition run :: "frame list \<Rightarrow> game \<Rightarrow> game" where
  "run fs g = foldl frameStep g fs"

text \<open>
  The game as the constructor and \<open>init\<close> leave it, before the enemies are created: the
  player stands at the start of the runway and looks along it.
\<close>

definition Game :: game where
  "Game =
     \<lparr>worldRadius = 845,
      player = Some (Player\<lparr>position := Vec3 0 3 (100 / 2 - 10),
                           rotation := Euler 0 pi 0,
                           meshPosition := Vec3 0 3 (100 / 2 - 10)\<rparr>),
      enemies = [],
      maxEnemies = 40,
      birds = [],
      maxBirds = 20,
      trees = [],
      mountains = [],
      effectsToUpdate = [],
      maxEffects = 30,
      runway = True,
      runwayWidth = 20,
      runwayLength = 100,
      boundaryWarningRadius = 675,
      boundaryPushRadius = 760,
      boundaryWarningActive = False,
      rescuedBirds = 0,
      gameOver = False,
      paused = False,
      keysPressed = (\<lambda>k. False),
      spawned = 0,
      screens = []\<rparr>"

section \<open>Sample values\<close>

text \<open>An enemy as the constructor builds it when every draw is one half, and a game view.\<close>

definition sampleCtorDraws :: ctor_draws where
  "sampleCtorDraws =
     \<lparr>cRotation = 1/2, cSpeed = 1/2, cTurnRate = 1/2, cChangeTime = 1/2,
      cDirX = 1/2, cDirY = 1/2, cDirZ = 3/4, cTargeting = 1/2, cMaxTargeting = 1/2,
      cBehavior = 1/2, cBehaviorDuration = 1/2\<rparr>"

definition sampleView :: gview where
  "sampleView = \<lparr>worldRadius = 845, playerPosition = Some (Vec3 0 3 40)\<rparr>"

definition sampleEnemy :: enemy where
  "sampleEnemy = EnemyPlane sampleView 0 (Vec3 60 50 80) sampleCtorDraws"

definition sampleDraws :: draws where
  "sampleDraws =
     \<lparr>now = 1, rChangeTime = 1/2, rDirX = 1/2, rDirY = 1/2, rDirZ = 1/2, rManeuver = 1/2,
      rType = 4/5, rEvasionDuration = 1/2, rEvasionDirection = 1/2, rDiveDuration = 1/2,
      rDiveX = 1/2, rDiveZ = 1/2\<rparr>"

section \<open>Notions used in the statements\<close>

text \<open>The state a call leaves behind, whether it returned or threw.\<close>

fun state :: "'a outcome \<Rightarrow> 'a" where
  "state (Returned x) = x"
| "state (Thrown x) = x"

text \<open>At most one of the three special-maneuver flags is set.\<close>

definition exclusive :: "enemy \<Rightarrow> bool" where
  "exclusive e =
     (\<not> (isEvading e \<and> isDiving e) \<and> \<not> (isEvading e \<and> isRolling e) \<and> \<not> (isDiving e \<and> isRolling e))"

text \<open>The distance from the world center in the horizontal plane, as every boundary test computes it.\<close>

definition horizontalDistance :: "vec3 \<Rightarrow> real" where
  "horizontalDistance p = sqrt (vx p * vx p + vz p * vz p)"

text \<open>The speed an enemy has after the speed block of \<open>update\<close> (lines 259 to 276).\<close>

definition speedStep :: "real \<Rightarrow> enemy \<Rightarrow> real" where
  "speedStep delta e =
     (if currentSpeed e < targetSpeedOf e
      then min (targetSpeedOf e) (currentSpeed e + speedChangeRate e * delta)
      else if currentSpeed e > targetSpeedOf e
      then max (targetSpeedOf e) (currentSpeed e - speedChangeRate e * delta)
      else currentSpeed e)"

text \<open>
  Draws that make an idle enemy start a barrel roll; an enemy in a diving attack below the
  minimum altitude; an enemy beyond the world radius whose target direction points straight
  down, as at the end of a steep dive; an aggressive enemy that has reached its base speed.
\<close>

definition rollDraws :: draws where
  "rollDraws = sampleDraws\<lparr>rManeuver := 0, rType := 4/5\<rparr>"

definition divingEnemy :: enemy where
  "divingEnemy =
     sampleEnemy\<lparr>position := Vec3 0 13 0, isDiving := True, diveDuration := 5/2,
                 diveTarget := Some (Vec3 0 3 40)\<rparr>"

definition strayEnemy :: enemy where
  "strayEnemy = sampleEnemy\<lparr>position := Vec3 1000 50 0, targetDirection := Vec3 0 (- 1) 0\<rparr>"

definition fastEnemy :: enemy where
  "fastEnemy = sampleEnemy\<lparr>behaviorState := Some Aggressive, currentSpeed := speed sampleEnemy\<rparr>"

definition sampleReadings :: readings where
  "sampleReadings = \<lparr>shotClock = 1, bulletClock = 1, frontPosition = Vec3 0 3 42\<rparr>"


text \<open>
  The boundary handling of the player in one frame: \<open>checkWorldBounds(this.player)\<close> at
  line 1039 and \<open>updateBoundaryEffects\<close> at line 1071 of \<open>Game.update\<close>. The calls between
  the two leave the player's position and velocity as they are.
\<close>

definition enforceBoundary :: "game \<Rightarrow> game" where
  "enforceBoundary g =
     updateBoundaryEffects (g\<lparr>player := map_option (checkWorldBounds (worldRadius g)) (player g)\<rparr>)"



text \<open>A player just outside the world radius, at rest.\<close>

definition edgePlayer :: player where
  "edgePlayer = Player\<lparr>position := Vec3 900 50 0\<rparr>"

definition edgeGame :: game where
  "edgeGame = Game\<lparr>player := Some edgePlayer\<rparr>"

text \<open>
  The bullets that are left when the first two loops of \<open>updateBullets\<close> are done, before
  the cap is applied.
\<close>

definition survivors :: "real \<Rightarrow> real \<Rightarrow> real \<Rightarrow> bullet list \<Rightarrow> bullet list" where
  "survivors r t delta bs = expireBullets t (moveBullets r delta bs)"

text \<open>Three bullets in firing order: an old one, one about to leave the world, a fresh one.\<close>

definition sampleBullets :: "bullet list" where
  "sampleBullets =
     [\<lparr>mesh = Some (Vec3 2 3 0), bulletVelocity = Vec3 80 0 0, createdAt = 5,
       originalScale = Vec3 1 1 1, direction = Vec3 1 0 0\<rparr>,
      \<lparr>mesh = Some (Vec3 840 3 0), bulletVelocity = Vec3 80 0 0, createdAt = 8,
       originalScale = Vec3 1 1 1, direction = Vec3 1 0 0\<rparr>,
      \<lparr>mesh = Some (Vec3 2 3 0), bulletVelocity = Vec3 80 0 0, createdAt = 9,
       originalScale = Vec3 1 1 1, direction = Vec3 1 0 0\<rparr>]"

definition freshBullet :: bullet where
  "freshBullet =
     \<lparr>mesh = Some (Vec3 10 3 0), bulletVelocity = Vec3 80 0 0, createdAt = 9,
      originalScale = Vec3 1 1 1, direction = Vec3 1 0 0\<rparr>"

text \<open>
  The player as \<open>init\<close> places it, looking along the runway with yaw \<open>pi\<close>, and the same
  player one frame later, now at flying speed with the right key held.
\<close>

definition startPlayer :: player where
  "startPlayer = Player\<lparr>position := Vec3 0 3 40, rotation := Euler 0 pi 0\<rparr>"

definition turningPlayer :: player where
  "turningPlayer =
     (updateRotation (1/10) startPlayer)\<lparr>speed := 10, controls := (controls Player)\<lparr>right := True\<rparr>\<rparr>"

text \<open>
  The explosions among the effects of a game; a bullet in range of an enemy at \<open>ep\<close>, by the
  test of \<open>checkBulletHits\<close> (lines 1225 to 1231), and the number of such bullets in a list.
\<close>

definition isExplosion :: "effect \<Rightarrow> bool" where
  "isExplosion x = (case x of Explosion t \<Rightarrow> True | HitIndicator t \<Rightarrow> False)"

definition explosions :: "game \<Rightarrow> nat" where
  "explosions g = length (filter isExplosion (effectsToUpdate g))"

definition inRange :: "vec3 \<Rightarrow> bullet \<Rightarrow> bool" where
  "inRange ep b =
     (case mesh b of
        None \<Rightarrow> False
      | Some bp \<Rightarrow> (vx bp - vx ep) * (vx bp - vx ep) + (vy bp - vy ep) * (vy bp - vy ep)
                   + (vz bp - vz ep) * (vz bp - vz ep) < enemyRadius * enemyRadius)"

definition hitCount :: "vec3 \<Rightarrow> bullet list \<Rightarrow> nat" where
  "hitCount ep bs = length (filter (inRange ep) bs)"

text \<open>
  The enemies of a game are distinct objects, each numbered below the count of the enemies
  constructed so far.
\<close>

definition freshIdents :: "game \<Rightarrow> bool" where
  "freshIdents g = (distinct (map ident (enemies g)) \<and> list_all (\<lambda>e. ident e < spawned g) (enemies g))"

text \<open>
  The number that \<open>handleEnemyDestruction\<close> adds to \<open>rescuedBirds\<close> (lines 1186 to 1194): two to
  four birds, as far as the bird list has room.
\<close>

definition released :: "frame \<Rightarrow> nat \<Rightarrow> game \<Rightarrow> int" where
  "released f index g =
     (let n = min (min 4 (\<lfloor>birdCountDraw f index * 3\<rfloor> + 2))
                  (max 0 (int (maxBirds g) - int (length (birds g))))
      in if n > 0 then n else 0)"

text \<open>
  What a call of \<open>checkBulletHits\<close> for the enemy at index \<open>i\<close> leaves behind when it destroys
  that enemy (one explosion, one new enemy at the end of the list in place of the one taken
  out), and when the enemy survives with its health lowered by \<open>d\<close>.
\<close>

definition destroyedAt :: "frame \<Rightarrow> nat \<Rightarrow> game \<Rightarrow> game \<Rightarrow> bool" where
  "destroyedAt f i g g' =
     (explosions g' = Suc (explosions g) \<and> spawned g' = Suc (spawned g)
      \<and> rescuedBirds g' = rescuedBirds g + released f i g
      \<and> (\<exists>n. enemies g' = removeAt i (enemies g) @ [n] \<and> ident n = spawned g \<and> health n = 150))"

definition survivesAt :: "nat \<Rightarrow> real \<Rightarrow> game \<Rightarrow> game \<Rightarrow> bool" where
  "survivesAt i d g g' =
     (explosions g' = explosions g \<and> spawned g' = spawned g \<and> rescuedBirds g' = rescuedBirds g
      \<and> (\<exists>e. enemies g' = (enemies g)[i := e] \<and> ident e = ident (enemies g ! i)
               \<and> health e = health (enemies g ! i) - d))"


definition progress :: "game \<Rightarrow> game \<Rightarrow> bool" where
  "progress g g' =
     (rescuedBirds g \<le> rescuedBirds g' \<and> screens g' = screens g \<and> gameOver g' = gameOver g
      \<and> paused g' = paused g \<and> maxEnemies g' = maxEnemies g)"



text \<open>
  A frame of a sixtieth of a second in which every draw is one half, and the draws for a
  bird and for a new enemy.
\<close>

definition sampleBirdDraws :: bird_ctor_draws where
  "sampleBirdDraws =
     \<lparr>bOffsetX = 1/2, bOffsetY = 1/2, bOffsetZ = 1/2, bVelX = 1/2, bVelY = 1/2, bVelZ = 1/2,
      bColor = 1/2\<rparr>"

definition sampleSpawn :: spawn_draws where
  "sampleSpawn = \<lparr>sAngle = 1/4, sDistance = 1/2, sHeight = 1/2, sCtor = sampleCtorDraws\<rparr>"

definition sampleFrame :: frame where
  "sampleFrame =
     \<lparr>events = [], elapsed = 1/60, effectsClock = 10, createClock = 10,
      playerReadings = sampleReadings,
      enemyDraws = (\<lambda>i. sampleDraws),
      hitDraws = (\<lambda>i j. (1/2, 1/2, 1/2)),
      birdCountDraw = (\<lambda>i. 1/2),
      releaseDraws = (\<lambda>i k. sampleBirdDraws),
      spawnDraws = (\<lambda>i. sampleSpawn),
      refillDraws = (\<lambda>n. sampleSpawn),
      birdDraws = (\<lambda>i. \<lparr>bChance = 1/2, bKickX = 1/2, bKickZ = 1/2\<rparr>)\<rparr>"

text \<open>
  An enemy with 50 health left, and three bullets of which the last two are within 8 units
  of it; a game that has just reached 100 rescued animals.
\<close>

definition volley :: "bullet list" where
  "volley =
     [freshBullet,
      freshBullet\<lparr>mesh := Some (Vec3 62 50 80)\<rparr>,
      freshBullet\<lparr>mesh := Some (Vec3 60 51 78)\<rparr>]"

definition duelGame :: game where
  "duelGame =
     Game\<lparr>player := Some (startPlayer\<lparr>bullets := volley\<rparr>),
          enemies := [sampleEnemy\<lparr>health := 50\<rparr>],
          spawned := 1\<rparr>"







text \<open>
  \<open>startDivingAttack\<close> goes ahead when the game has a player, the enemy is at altitude 30
  or more and the player is not above the enemy's maximum altitude (lines 599 to 604).
\<close>

definition divePossible :: "gview \<Rightarrow> enemy \<Rightarrow> bool" where
  "divePossible g e =
     (case playerPosition g of
        None \<Rightarrow> False
      | Some pp \<Rightarrow> \<not> vy (position e) < 30 \<and> \<not> vy pp > maxAltitude e)"

text \<open>
  The bullet list as \<open>shoot\<close> builds it: every entry has a mesh, the creation times ascend
  along the list, and none is later than the clock reading \<open>t\<close>. \<open>armed t g\<close> says so of
  the player's list in a game; \<open>ascending t fs\<close> says that the clock readings of the frames
  \<open>fs\<close> do not go back, starting from \<open>t\<close>, and \<open>lastClock\<close> is the last of them.
\<close>

definition hasMesh :: "bullet \<Rightarrow> bool" where
  "hasMesh b = (mesh b \<noteq> None)"

definition firingOrder :: "real \<Rightarrow> bullet list \<Rightarrow> bool" where
  "firingOrder t bs =
     (list_all hasMesh bs \<and> sorted (map createdAt bs) \<and> list_all (\<lambda>b. createdAt b \<le> t) bs)"

definition armed :: "real \<Rightarrow> game \<Rightarrow> bool" where
  "armed t g = (case player g of None \<Rightarrow> True | Some p \<Rightarrow> firingOrder t (bullets p))"

fun ascending :: "real \<Rightarrow> frame list \<Rightarrow> bool" where
  "ascending t [] = True"
| "ascending t (f # fs) =
     (t \<le> shotClock (playerReadings f) \<and> ascending (shotClock (playerReadings f)) fs)"

fun lastClock :: "real \<Rightarrow> frame list \<Rightarrow> real" where
  "lastClock t [] = t"
| "lastClock t (f # fs) = lastClock (shotClock (playerReadings f)) fs"

text \<open>
  The per-frame bullet update in the words of its description: every bullet is moved by its
  velocity, and a bullet stays if it is then within the world radius (a radius of zero
  switches the test off) and not older than 3 seconds.
\<close>

definition moved :: "real \<Rightarrow> bullet \<Rightarrow> bullet" where
  "moved delta b =
     (case mesh b of
        None \<Rightarrow> b
      | Some p \<Rightarrow> b\<lparr>mesh := Some (Vec3 (vx p + vx (bulletVelocity b) * delta)
                                       (vy p + vy (bulletVelocity b) * delta)
                                       (vz p + vz (bulletVelocity b) * delta))\<rparr>)"

definition inWorld :: "real \<Rightarrow> bullet \<Rightarrow> bool" where
  "inWorld r b = (case mesh b of None \<Rightarrow> True | Some p \<Rightarrow> \<not> (r \<noteq> 0 \<and> horizontalDistance p > r))"

definition young :: "real \<Rightarrow> bullet \<Rightarrow> bool" where
  "young t b = (\<not> t - createdAt b > 3)"

text \<open>
  Twenty-two bullets in firing order, the first two fired a second before the others.
\<close>

definition burst :: "bullet list" where
  "burst =
     replicate 2 (freshBullet\<lparr>mesh := Some (Vec3 2 3 0), createdAt := 8\<rparr>)
     @ replicate 20 (freshBullet\<lparr>mesh := Some (Vec3 2 3 0)\<rparr>)"

section \<open>Damage\<close>

text \<open>
  C10. A hit whose amount is at least the enemy's health changes the health field and nothing
  else: no flash, no pending revert, no evasive maneuver. \<open>damage\<close> maps an enemy to an
  enemy, so it cannot take the enemy out of the game's list.
\<close>

theorem damage_killing_hit:
  "health e \<le> amount \<Longrightarrow> damage amount rHit rDur rDir e = e\<lparr>health := health e - amount\<rparr>"
  by (simp add: damage_def Let_def)

theorem damage_killing_hit_witness:
  "health sampleEnemy \<le> 150 \<and>
   damage 150 0 0 0 sampleEnemy = sampleEnemy\<lparr>health := health sampleEnemy - 150\<rparr>"
proof -
  have h: "health sampleEnemy \<le> 150"
    by (simp add: sampleEnemy_def EnemyPlane_def Let_def)
  from damage_killing_hit [OF h] h show ?thesis by simp
qed

section \<open>Special maneuvers\<close>

lemma wrapAround_flags:
  "(isEvading (wrapAround g e) \<longrightarrow> isEvading e) \<and> (isDiving (wrapAround g e) \<longrightarrow> isDiving e) \<and>
   (isRolling (wrapAround g e) \<longrightarrow> isRolling e)"
  by (simp add: wrapAround_def Let_def)

lemma changeDirection_flags:
  "isEvading (changeDirection d e) = isEvading e \<and> isDiving (changeDirection d e) = isDiving e \<and>
   isRolling (changeDirection d e) = isRolling e"
  by (simp add: changeDirection_def updateRandomDirection_def Let_def)

lemma specialManeuvers_flags:
  "(isEvading (state (specialManeuvers delta e)) \<longrightarrow> isEvading e) \<and>
   (isDiving (state (specialManeuvers delta e)) \<longrightarrow> isDiving e) \<and>
   (isRolling (state (specialManeuvers delta e)) \<longrightarrow> isRolling e)"
  by (simp add: specialManeuvers_def handleEvasiveManeuvers_def handleDivingAttack_def
        handleBarrelRoll_def Let_def split: option.split)

lemma turn_flags:
  "isEvading (fst (turn delta e)) = isEvading e \<and> isDiving (fst (turn delta e)) = isDiving e \<and>
   isRolling (fst (turn delta e)) = isRolling e"
  by (simp add: turn_def Let_def)

lemma integrate_flags:
  "isEvading (integrate delta c e) = isEvading e \<and> isDiving (integrate delta c e) = isDiving e \<and>
   isRolling (integrate delta c e) = isRolling e"
  by (simp add: integrate_def Let_def)

lemma enforceAltitude_flags:
  "isEvading (enforceAltitude e) = isEvading e \<and> isDiving (enforceAltitude e) = isDiving e \<and>
   isRolling (enforceAltitude e) = isRolling e"
  by (simp add: enforceAltitude_def Let_def)

lemma publish_flags:
  "isEvading (publish delta e) = isEvading e \<and> isDiving (publish delta e) = isDiving e \<and>
   isRolling (publish delta e) = isRolling e"
  by (simp add: publish_def)

lemma maybeStartManeuver_exclusive:
  "exclusive e \<Longrightarrow> exclusive (maybeStartManeuver g d e)"
  by (auto simp: exclusive_def maybeStartManeuver_def startSpecialManeuver_def startDivingAttack_def
        startEvasiveManeuvers_def startBarrelRoll_def Let_def split: option.splits if_splits)

lemma afterManeuvers_unfold:
  "afterManeuvers g d delta e =
     maybeStartManeuver g d (publish delta (enforceAltitude
       (integrate delta (snd (turn delta e)) (fst (turn delta e)))))"
  by (simp add: afterManeuvers_def split: prod.split)

lemma afterManeuvers_exclusive:
  assumes "exclusive e"
  shows "exclusive (afterManeuvers g d delta e)"
proof -
  let ?i = "integrate delta (snd (turn delta e)) (fst (turn delta e))"
  have "exclusive (publish delta (enforceAltitude ?i))"
    using assms turn_flags [of delta e] integrate_flags [of delta "snd (turn delta e)" "fst (turn delta e)"]
      enforceAltitude_flags [of ?i] publish_flags [of delta "enforceAltitude ?i"]
    by (simp add: exclusive_def)
  then show ?thesis
    by (simp add: afterManeuvers_unfold maybeStartManeuver_exclusive)
qed

lemma before_exclusive:
  "exclusive e \<Longrightarrow> exclusive (state (specialManeuvers delta (changeDirection d (wrapAround g e))))"
  using wrapAround_flags [of g e] changeDirection_flags [of d "wrapAround g e"]
    specialManeuvers_flags [of delta "changeDirection d (wrapAround g e)"]
  unfolding exclusive_def by blast

lemma update_state:
  "state (update g d delta e) =
     (case specialManeuvers delta (changeDirection d (wrapAround g e)) of
        Returned m \<Rightarrow> afterManeuvers g d delta m
      | Thrown m \<Rightarrow> m)"
  by (simp add: update_def split: outcome.split)

lemma update_exclusive:
  assumes "exclusive e"
  shows "exclusive (state (update g d delta e))"
proof (cases "specialManeuvers delta (changeDirection d (wrapAround g e))")
  case (Returned m)
  with before_exclusive [OF assms, of delta d g] have "exclusive m" by simp
  then show ?thesis using Returned by (simp add: update_state afterManeuvers_exclusive)
next
  case (Thrown m)
  with before_exclusive [OF assms, of delta d g] have "exclusive m" by simp
  then show ?thesis using Thrown by (simp add: update_state)
qed

lemma update_starts_roll:
  assumes idle: "\<not> isEvading e" "\<not> isDiving e" "\<not> isRolling e"
    and draw: "rManeuver d < 0.01" "\<not> rType d < 0.7"
  shows "isRolling (state (update g d delta e))"
proof -
  let ?b = "changeDirection d (wrapAround g e)"
  have b: "\<not> isEvading ?b" "\<not> isDiving ?b" "\<not> isRolling ?b"
    using idle wrapAround_flags [of g e] changeDirection_flags [of d "wrapAround g e"] by auto
  then have sm: "specialManeuvers delta ?b = Returned ?b" by (simp add: specialManeuvers_def)
  let ?x = "publish delta (enforceAltitude (integrate delta (snd (turn delta ?b)) (fst (turn delta ?b))))"
  have x: "\<not> isEvading ?x" "\<not> isDiving ?x" "\<not> isRolling ?x"
    using b turn_flags [of delta ?b]
      integrate_flags [of delta "snd (turn delta ?b)" "fst (turn delta ?b)"]
      enforceAltitude_flags [of "integrate delta (snd (turn delta ?b)) (fst (turn delta ?b))"]
      publish_flags [of delta "enforceAltitude (integrate delta (snd (turn delta ?b)) (fst (turn delta ?b)))"]
    by simp_all
  have "maybeStartManeuver g d ?x = startBarrelRoll ?x"
    using x draw by (simp add: maybeStartManeuver_def startSpecialManeuver_def)
  then show ?thesis
    by (simp add: update_state sm afterManeuvers_unfold startBarrelRoll_def)
qed

lemma sampleEnemy_idle:
  "\<not> isEvading sampleEnemy" "\<not> isDiving sampleEnemy" "\<not> isRolling sampleEnemy"
  by (simp_all add: sampleEnemy_def EnemyPlane_def Let_def)

text \<open>
  C4, as the code has it. At most one of \<open>isEvading\<close>, \<open>isDiving\<close>, \<open>isRolling\<close> is set in
  an enemy as the constructor leaves it, and \<open>update\<close> keeps it so: it starts a maneuver
  only when none is active, it ends maneuvers one at a time, and the boundary wrap clears
  all three. Starting a maneuver sets the flag of that maneuver and leaves the other two
  flags as they are: \<open>startEvasiveManeuvers\<close> and \<open>startBarrelRoll\<close> always set theirs,
  \<open>startDivingAttack\<close> sets \<open>isDiving\<close> when the dive is possible and otherwise changes
  nothing. \<open>damage\<close> sets \<open>isEvading\<close> when the health stays positive and the draw is below
  0.7, and leaves \<open>isDiving\<close> and \<open>isRolling\<close> as they are.
\<close>

theorem maneuver_flags_exclusive:
  "exclusive (EnemyPlane g i pos c) \<and>
   (exclusive e \<longrightarrow> exclusive (state (update g d delta e))) \<and>
   isEvading (startEvasiveManeuvers rDur rDir e) \<and>
   isDiving (startEvasiveManeuvers rDur rDir e) = isDiving e \<and>
   isRolling (startEvasiveManeuvers rDur rDir e) = isRolling e \<and>
   isRolling (startBarrelRoll e) \<and>
   isEvading (startBarrelRoll e) = isEvading e \<and>
   isDiving (startBarrelRoll e) = isDiving e \<and>
   (if divePossible g e then isDiving (startDivingAttack g d e) else startDivingAttack g d e = e) \<and>
   isEvading (startDivingAttack g d e) = isEvading e \<and>
   isRolling (startDivingAttack g d e) = isRolling e \<and>
   isEvading (damage a rHit rDur rDir e) = (isEvading e \<or> health e - a > 0 \<and> rHit < 0.7) \<and>
   isDiving (damage a rHit rDur rDir e) = isDiving e \<and>
   isRolling (damage a rHit rDur rDir e) = isRolling e"
proof -
  have dive: "if divePossible g e then isDiving (startDivingAttack g d e) else startDivingAttack g d e = e"
    "isEvading (startDivingAttack g d e) = isEvading e"
    "isRolling (startDivingAttack g d e) = isRolling e"
    by (simp_all add: divePossible_def startDivingAttack_def Let_def split: option.split)
  have dmg: "isEvading (damage a rHit rDur rDir e) = (isEvading e \<or> health e - a > 0 \<and> rHit < 0.7)"
    "isDiving (damage a rHit rDur rDir e) = isDiving e"
    "isRolling (damage a rHit rDur rDir e) = isRolling e"
    by (auto simp: damage_def startEvasiveManeuvers_def Let_def)
  have starts: "isEvading (startEvasiveManeuvers rDur rDir e)"
    "isDiving (startEvasiveManeuvers rDur rDir e) = isDiving e"
    "isRolling (startEvasiveManeuvers rDur rDir e) = isRolling e"
    "isRolling (startBarrelRoll e)"
    "isEvading (startBarrelRoll e) = isEvading e"
    "isDiving (startBarrelRoll e) = isDiving e"
    by (simp_all add: startEvasiveManeuvers_def startBarrelRoll_def)
  have "exclusive (EnemyPlane g i pos c)"
    by (simp add: exclusive_def EnemyPlane_def Let_def)
  then show ?thesis
    using dive dmg starts update_exclusive [of e g d delta] by simp
qed

theorem maneuver_flags_exclusive_witness:
  "exclusive sampleEnemy
   \<and> exclusive (state (update sampleView rollDraws (1/10) sampleEnemy))
   \<and> isRolling (state (update sampleView rollDraws (1/10) sampleEnemy))
   \<and> divePossible sampleView sampleEnemy
   \<and> isDiving (startDivingAttack sampleView rollDraws sampleEnemy)
   \<and> \<not> isEvading (startDivingAttack sampleView rollDraws sampleEnemy)"
proof -
  have h: "exclusive sampleEnemy"
    by (simp add: exclusive_def sampleEnemy_idle)
  have r: "isRolling (state (update sampleView rollDraws (1/10) sampleEnemy))"
    by (rule update_starts_roll) (simp_all add: sampleEnemy_idle rollDraws_def sampleDraws_def)
  have p: "divePossible sampleView sampleEnemy"
    by (simp add: divePossible_def sampleView_def sampleEnemy_def EnemyPlane_def Let_def)
  from maneuver_flags_exclusive [where e = sampleEnemy and g = sampleView and d = rollDraws
      and delta = "1/10"] h r p sampleEnemy_idle(1)
  show ?thesis by simp
qed

text \<open>
  The claim as stated fails: an enemy that has started a barrel roll (the maneuver that
  \<open>update\<close> starts for these draws) and is then hit for 25 with its health still positive
  starts the evasive reaction, and both \<open>isEvading\<close> and \<open>isRolling\<close> are set.
\<close>

theorem maneuver_flags_counterexample:
  "isRolling (maybeStartManeuver sampleView rollDraws sampleEnemy) \<and>
   \<not> isEvading (maybeStartManeuver sampleView rollDraws sampleEnemy) \<and>
   isEvading (damage 25 0 0 0 (maybeStartManeuver sampleView rollDraws sampleEnemy)) \<and>
   isRolling (damage 25 0 0 0 (maybeStartManeuver sampleView rollDraws sampleEnemy))"
  by (simp add: damage_def maybeStartManeuver_def startSpecialManeuver_def startBarrelRoll_def
      startEvasiveManeuvers_def rollDraws_def sampleDraws_def sampleEnemy_def sampleView_def
      EnemyPlane_def Let_def)

section \<open>Altitude limits\<close>

lemma limits_wrapAround:
  "minAltitude (wrapAround g e) = minAltitude e \<and> maxAltitude (wrapAround g e) = maxAltitude e"
  by (simp add: wrapAround_def Let_def)

lemma limits_changeDirection:
  "minAltitude (changeDirection d e) = minAltitude e \<and> maxAltitude (changeDirection d e) = maxAltitude e"
  by (simp add: changeDirection_def updateRandomDirection_def Let_def)

lemma limits_specialManeuvers:
  "minAltitude (state (specialManeuvers delta e)) = minAltitude e \<and>
   maxAltitude (state (specialManeuvers delta e)) = maxAltitude e"
  by (simp add: specialManeuvers_def handleEvasiveManeuvers_def handleDivingAttack_def
        handleBarrelRoll_def Let_def split: option.split)

lemma limits_turn:
  "minAltitude (fst (turn delta e)) = minAltitude e \<and> maxAltitude (fst (turn delta e)) = maxAltitude e"
  by (simp add: turn_def Let_def)

lemma limits_integrate:
  "minAltitude (integrate delta c e) = minAltitude e \<and> maxAltitude (integrate delta c e) = maxAltitude e"
  by (simp add: integrate_def Let_def)

lemma enforceAltitude_bounds:
  assumes "minAltitude e \<le> maxAltitude e"
  shows "vy (position (enforceAltitude e)) \<le> maxAltitude e"
    and "\<not> isDiving e \<Longrightarrow> minAltitude e \<le> vy (position (enforceAltitude e))"
  using assms by (auto simp: enforceAltitude_def Let_def setY_def)

lemma enforceAltitude_diving:
  "isDiving e \<Longrightarrow> vy (position (enforceAltitude e)) \<le> vy (position e)"
  by (auto simp: enforceAltitude_def Let_def setY_def)

lemma publish_position: "position (publish delta e) = position e"
  by (simp add: publish_def)

lemma startSpecialManeuver_position: "position (startSpecialManeuver g d e) = position e"
  by (simp add: startSpecialManeuver_def startDivingAttack_def startEvasiveManeuvers_def
      startBarrelRoll_def Let_def split: option.split)

lemma maybeStartManeuver_position: "position (maybeStartManeuver g d e) = position e"
  by (simp add: maybeStartManeuver_def startSpecialManeuver_position)

lemma maybeStartManeuver_diving: "isDiving e \<Longrightarrow> isDiving (maybeStartManeuver g d e)"
  by (simp add: maybeStartManeuver_def)

lemma afterManeuvers_altitude:
  assumes "minAltitude e \<le> maxAltitude e"
  shows "vy (position (afterManeuvers g d delta e)) \<le> maxAltitude e"
    and "\<not> isDiving (afterManeuvers g d delta e) \<Longrightarrow> minAltitude e \<le> vy (position (afterManeuvers g d delta e))"
proof -
  let ?i = "integrate delta (snd (turn delta e)) (fst (turn delta e))"
  have lim: "minAltitude ?i = minAltitude e" "maxAltitude ?i = maxAltitude e"
    using limits_turn [of delta e] limits_integrate [of delta "snd (turn delta e)" "fst (turn delta e)"]
    by simp_all
  have le: "minAltitude ?i \<le> maxAltitude ?i" using assms lim by simp
  show "vy (position (afterManeuvers g d delta e)) \<le> maxAltitude e"
    using enforceAltitude_bounds(1) [OF le] lim
    by (simp add: afterManeuvers_unfold maybeStartManeuver_position publish_position)
  assume nd: "\<not> isDiving (afterManeuvers g d delta e)"
  have "\<not> isDiving (publish delta (enforceAltitude ?i))"
    using nd maybeStartManeuver_diving [of "publish delta (enforceAltitude ?i)" g d]
    by (auto simp: afterManeuvers_unfold)
  then have "\<not> isDiving ?i"
    using enforceAltitude_flags [of ?i] publish_flags [of delta "enforceAltitude ?i"] by simp
  then show "minAltitude e \<le> vy (position (afterManeuvers g d delta e))"
    using enforceAltitude_bounds(2) [OF le] lim
    by (simp add: afterManeuvers_unfold maybeStartManeuver_position publish_position)
qed

text \<open>\<open>update\<close> returns unless a dive is in progress without a target.\<close>

lemma update_returns:
  "isDiving e \<longrightarrow> diveTarget e \<noteq> None \<Longrightarrow> \<exists>e'. update g d delta e = Returned e'"
  by (auto simp: update_def specialManeuvers_def handleDivingAttack_def changeDirection_def
        updateRandomDirection_def wrapAround_def Let_def split: option.splits outcome.splits)

lemma update_Returned:
  assumes "update g d delta e = Returned e'"
  shows "\<exists>m. specialManeuvers delta (changeDirection d (wrapAround g e)) = Returned m \<and>
             e' = afterManeuvers g d delta m"
  using assms by (auto simp: update_def split: outcome.splits)

text \<open>
  C2, as the code has it. After any call of \<open>update\<close> the altitude is at most
  \<open>maxAltitude\<close>, and it is at least \<open>minAltitude\<close> unless the enemy is in a diving attack:
  the lower clamp is skipped while \<open>isDiving\<close> is set. The call returns for every enemy
  whose dive, when one is in progress, has its target.
\<close>

theorem update_altitude_bounds:
  assumes "minAltitude e \<le> maxAltitude e" and "isDiving e \<longrightarrow> diveTarget e \<noteq> None"
  shows "\<exists>e'. update g d delta e = Returned e' \<and> vy (position e') \<le> maxAltitude e \<and>
           (\<not> isDiving e' \<longrightarrow> minAltitude e \<le> vy (position e'))"
proof -
  obtain e' where r: "update g d delta e = Returned e'"
    using update_returns [OF assms(2)] by blast
  then obtain m where m: "specialManeuvers delta (changeDirection d (wrapAround g e)) = Returned m"
    and e': "e' = afterManeuvers g d delta m"
    using update_Returned by blast
  have lim: "minAltitude m = minAltitude e" "maxAltitude m = maxAltitude e"
    using limits_specialManeuvers [of delta "changeDirection d (wrapAround g e)"]
      limits_changeDirection [of d "wrapAround g e"] limits_wrapAround [of g e] m by simp_all
  then have le: "minAltitude m \<le> maxAltitude m" using assms(1) by simp
  show ?thesis
    using r afterManeuvers_altitude [OF le, of g d delta] lim e' by auto
qed

theorem update_altitude_bounds_witness:
  "minAltitude sampleEnemy \<le> maxAltitude sampleEnemy \<and> \<not> isDiving sampleEnemy \<and>
   (\<exists>e'. update sampleView sampleDraws (1/10) sampleEnemy = Returned e' \<and>
         vy (position e') \<le> maxAltitude sampleEnemy \<and>
         (\<not> isDiving e' \<longrightarrow> minAltitude sampleEnemy \<le> vy (position e')))"
proof -
  have h1: "minAltitude sampleEnemy \<le> maxAltitude sampleEnemy"
    by (simp add: sampleEnemy_def EnemyPlane_def Let_def)
  have h2: "\<not> isDiving sampleEnemy"
    by (simp add: sampleEnemy_def EnemyPlane_def Let_def)
  then have h3: "isDiving sampleEnemy \<longrightarrow> diveTarget sampleEnemy \<noteq> None" by simp
  from update_altitude_bounds [OF h1 h3] h1 h2 show ?thesis by blast
qed

section \<open>Vectors and speeds\<close>

lemma lengthSq_nonneg: "0 \<le> lengthSq v"
  by (simp add: lengthSq_def)

lemma vlength_nonneg: "0 \<le> vlength v"
  by (simp add: vlength_def lengthSq_nonneg)

lemma vlength_multiplyScalar: "vlength (multiplyScalar v s) = vlength v * \<bar>s\<bar>"
proof -
  have "lengthSq (multiplyScalar v s) = lengthSq v * (s * s)"
    by (simp add: lengthSq_def multiplyScalar_def algebra_simps)
  then show ?thesis
    by (simp add: vlength_def real_sqrt_mult)
qed

lemma vlength_normalize_vec: "vlength v \<noteq> 0 \<Longrightarrow> vlength (normalize_vec v) = 1"
  using vlength_nonneg [of v]
  by (simp add: normalize_vec_def Let_def vlength_multiplyScalar)

lemma vlength_mono:
  assumes "\<bar>vx a\<bar> \<le> \<bar>vx b\<bar>" "\<bar>vy a\<bar> \<le> \<bar>vy b\<bar>" "\<bar>vz a\<bar> \<le> \<bar>vz b\<bar>"
  shows "vlength a \<le> vlength b"
proof -
  have "vx a * vx a \<le> vx b * vx b" "vy a * vy a \<le> vy b * vy b" "vz a * vz a \<le> vz b * vz b"
    using assms by (simp_all add: abs_le_square_iff power2_eq_square)
  then show ?thesis
    by (simp add: vlength_def lengthSq_def add_mono)
qed

lemma sin_cos_sq: "sin x * sin x + cos x * cos x = (1::real)"
  using sin_cos_squared_add [of x] by (simp add: power2_eq_square)

lemma sum_sq_factor:
  "c * c + (a * d) * (a * d) + (b * d) * (b * d) = c * c + (a * a + b * b) * (d * d)"
  for a b c d :: real
  by (simp add: algebra_simps)

lemma forward_components:
  "applyEuler forward r = Vec3 (sin (ey r)) (- (sin (ex r) * cos (ey r))) (cos (ex r) * cos (ey r))"
  by (simp add: applyEuler_def forward_def Let_def)

text \<open>The forward direction of a plane is a unit vector.\<close>

lemma forward_unit: "vlength (applyEuler forward r) = 1"
proof -
  have "lengthSq (applyEuler forward r)
          = sin (ey r) * sin (ey r) + (sin (ex r) * cos (ey r)) * (sin (ex r) * cos (ey r))
            + (cos (ex r) * cos (ey r)) * (cos (ex r) * cos (ey r))"
    unfolding forward_components lengthSq_def by simp
  also have "\<dots> = sin (ey r) * sin (ey r)
                 + (sin (ex r) * sin (ex r) + cos (ex r) * cos (ex r)) * (cos (ey r) * cos (ey r))"
    by (rule sum_sq_factor)
  also have "\<dots> = 1" by (simp only: sin_cos_sq mult_1)
  finally show ?thesis by (simp add: vlength_def)
qed

lemma forward_y_bound: "\<bar>vy (applyEuler forward r)\<bar> \<le> 1"
proof -
  have "\<bar>sin (ex r) * cos (ey r)\<bar> \<le> 1 * 1"
    unfolding abs_mult by (intro mult_mono) auto
  then show ?thesis by (simp add: forward_components)
qed

lemma turn_direction: "\<exists>r. snd (turn delta e) = applyEuler forward r"
  by (auto simp: turn_def Let_def)

lemma turn_keeps:
  "position (fst (turn delta e)) = position e"
  "speed (fst (turn delta e)) = speed e"
  "currentSpeed (fst (turn delta e)) = currentSpeed e"
  "speedChangeRate (fst (turn delta e)) = speedChangeRate e"
  "targetSpeedOf (fst (turn delta e)) = targetSpeedOf e"
  by (simp_all add: turn_def Let_def targetSpeedOf_def)

lemma integrate_currentSpeed: "currentSpeed (integrate delta c e) = speedStep delta e"
  by (simp add: integrate_def speedStep_def Let_def)

lemma integrate_velocity: "velocity (integrate delta c e) = multiplyScalar c (speedStep delta e)"
  by (simp add: integrate_def speedStep_def Let_def)

lemma integrate_speed: "speed (integrate delta c e) = speed e"
  by (simp add: integrate_def Let_def)

lemma integrate_y:
  "vy (position (integrate delta c e)) = vy (position e) + vy c * speedStep delta e * delta"
  by (simp add: integrate_def speedStep_def Let_def vadd_def multiplyScalar_def)

lemma speedStep_turn: "speedStep delta (fst (turn dt e)) = speedStep delta e"
  by (simp add: speedStep_def turn_keeps)

lemma enforceAltitude_keeps:
  "velocity (enforceAltitude e) = velocity e"
  "currentSpeed (enforceAltitude e) = currentSpeed e"
  "speed (enforceAltitude e) = speed e"
  by (simp_all add: enforceAltitude_def Let_def)

lemma publish_keeps:
  "velocity (publish delta e) = velocity e"
  "currentSpeed (publish delta e) = currentSpeed e"
  "speed (publish delta e) = speed e"
  by (simp_all add: publish_def)

lemma startSpecialManeuver_keeps:
  "velocity (startSpecialManeuver g d e) = velocity e"
  "currentSpeed (startSpecialManeuver g d e) = currentSpeed e"
  "speed (startSpecialManeuver g d e) = speed e"
  by (simp_all add: startSpecialManeuver_def startDivingAttack_def
        startEvasiveManeuvers_def startBarrelRoll_def Let_def split: option.split)

lemma maybeStartManeuver_keeps:
  "velocity (maybeStartManeuver g d e) = velocity e"
  "currentSpeed (maybeStartManeuver g d e) = currentSpeed e"
  "speed (maybeStartManeuver g d e) = speed e"
  by (simp_all add: maybeStartManeuver_def startSpecialManeuver_keeps)

lemmas tail_keeps = maybeStartManeuver_keeps publish_keeps enforceAltitude_keeps

lemma afterManeuvers_currentSpeed:
  "currentSpeed (afterManeuvers g d delta e) = speedStep delta e"
  by (simp add: afterManeuvers_unfold tail_keeps integrate_currentSpeed speedStep_turn)

lemma afterManeuvers_speed: "speed (afterManeuvers g d delta e) = speed e"
  by (simp add: afterManeuvers_unfold tail_keeps integrate_speed turn_keeps)

lemma afterManeuvers_velocity_length:
  "vlength (velocity (afterManeuvers g d delta e)) = \<bar>speedStep delta e\<bar>"
proof -
  obtain r where "snd (turn delta e) = applyEuler forward r"
    using turn_direction by blast
  then have "velocity (afterManeuvers g d delta e) = multiplyScalar (applyEuler forward r) (speedStep delta e)"
    by (simp add: afterManeuvers_unfold tail_keeps integrate_velocity speedStep_turn)
  then show ?thesis
    by (simp add: vlength_multiplyScalar forward_unit)
qed

lemma wrapAround_keeps:
  "speed (wrapAround g e) = speed e"
  "currentSpeed (wrapAround g e) = currentSpeed e"
  "speedChangeRate (wrapAround g e) = speedChangeRate e"
  by (simp_all add: wrapAround_def Let_def)

lemma changeDirection_keeps:
  "speed (changeDirection d e) = speed e"
  "currentSpeed (changeDirection d e) = currentSpeed e"
  "speedChangeRate (changeDirection d e) = speedChangeRate e"
  by (simp_all add: changeDirection_def updateRandomDirection_def Let_def)

lemma specialManeuvers_keeps:
  "speed (state (specialManeuvers delta e)) = speed e"
  "currentSpeed (state (specialManeuvers delta e)) = currentSpeed e"
  "speedChangeRate (state (specialManeuvers delta e)) = speedChangeRate e"
  by (simp_all add: specialManeuvers_def handleEvasiveManeuvers_def handleDivingAttack_def
        handleBarrelRoll_def Let_def split: option.split)

lemmas before_keeps = specialManeuvers_keeps changeDirection_keeps wrapAround_keeps

lemma targetSpeedOf_bounds:
  assumes "0 \<le> speed e"
  shows "0 \<le> targetSpeedOf e" and "targetSpeedOf e \<le> speed e * 1.3"
  using assms by (auto simp: targetSpeedOf_def)

lemma speedStep_bounds:
  assumes "0 \<le> delta" "0 \<le> speedChangeRate e" "0 \<le> currentSpeed e" "0 \<le> speed e"
  shows "0 \<le> speedStep delta e"
    and "speedStep delta e \<le> max (currentSpeed e) (targetSpeedOf e)"
    and "speedStep delta e \<le> max (currentSpeed e) (speed e * 1.3)"
proof -
  have p: "0 \<le> speedChangeRate e * delta" using assms by simp
  note t = targetSpeedOf_bounds [OF assms(4)]
  show "0 \<le> speedStep delta e" using p t assms(3) by (auto simp: speedStep_def)
  show "speedStep delta e \<le> max (currentSpeed e) (targetSpeedOf e)"
    using p unfolding speedStep_def min_def max_def by (simp split: if_splits)
  show "speedStep delta e \<le> max (currentSpeed e) (speed e * 1.3)"
    using p t assms(3) unfolding speedStep_def min_def max_def by (simp split: if_splits)
qed

text \<open>While an enemy dives, one step lowers or raises it by at most its speed times the step.\<close>

lemma dive_keeps_sinking:
  assumes dv: "isDiving e" and d0: "0 \<le> delta" and r0: "0 \<le> speedChangeRate e"
    and c0: "0 \<le> currentSpeed e" and t0: "0 \<le> speed e"
    and cM: "currentSpeed e \<le> M" and tM: "targetSpeedOf e \<le> M"
  shows "vy (position (afterManeuvers g d delta e)) \<le> vy (position e) + M * delta"
proof -
  let ?c = "snd (turn delta e)" and ?e1 = "fst (turn delta e)"
  let ?i = "integrate delta ?c ?e1"
  obtain r where cr: "?c = applyEuler forward r" using turn_direction by blast
  have cy: "\<bar>vy ?c\<bar> \<le> 1" using forward_y_bound [of r] cr by simp
  have s1: "0 \<le> speedStep delta e" using speedStep_bounds(1) [OF d0 r0 c0 t0] .
  have s2: "speedStep delta e \<le> M" using speedStep_bounds(2) [OF d0 r0 c0 t0] cM tM by simp
  have "vy ?c * speedStep delta e \<le> 1 * M"
  proof -
    have "vy ?c * speedStep delta e \<le> \<bar>vy ?c\<bar> * speedStep delta e"
      using s1 by (simp add: mult_right_mono)
    also have "\<dots> \<le> 1 * M" using cy s1 s2 by (intro mult_mono) auto
    finally show ?thesis .
  qed
  then have "vy ?c * speedStep delta e * delta \<le> M * delta"
    using d0 by (simp add: mult_right_mono)
  then have yi: "vy (position ?i) \<le> vy (position e) + M * delta"
    by (simp add: integrate_y speedStep_turn turn_keeps)
  have "isDiving ?i" using dv turn_flags [of delta e] integrate_flags [of delta ?c ?e1] by simp
  then have "vy (position (enforceAltitude ?i)) \<le> vy (position ?i)"
    by (rule enforceAltitude_diving)
  then show ?thesis
    using yi by (simp add: afterManeuvers_unfold maybeStartManeuver_position publish_position)
qed

lemma diving_before:
  "\<exists>td. specialManeuvers (1/10) (changeDirection sampleDraws (wrapAround sampleView divingEnemy))
     = Returned (divingEnemy\<lparr>diveTimer := 1/10, targetDirection := td\<rparr>)"
  by (simp add: specialManeuvers_def handleDivingAttack_def changeDirection_def wrapAround_def
      divingEnemy_def sampleEnemy_def sampleView_def sampleDraws_def sampleCtorDraws_def
      EnemyPlane_def Let_def)

text \<open>
  C2 as stated fails. An enemy in a diving attack at altitude 13 (its target is the player
  near the ground) moves by at most its speed times the step, and the lower clamp is
  skipped while it dives: after the update it is still below \<open>minAltitude = 15\<close>.
\<close>

theorem update_altitude_counterexample:
  "(case update sampleView sampleDraws (1/10) divingEnemy of
      Returned e' \<Rightarrow> vy (position e') < minAltitude divingEnemy
    | Thrown e' \<Rightarrow> False)"
proof -
  obtain td where m: "specialManeuvers (1/10) (changeDirection sampleDraws (wrapAround sampleView divingEnemy))
     = Returned (divingEnemy\<lparr>diveTimer := 1/10, targetDirection := td\<rparr>)"
    using diving_before by blast
  let ?e = "divingEnemy\<lparr>diveTimer := 1/10, targetDirection := td\<rparr>"
  have u: "update sampleView sampleDraws (1/10) divingEnemy
            = Returned (afterManeuvers sampleView sampleDraws (1/10) ?e)"
    using m by (simp add: update_def)
  have ts: "targetSpeedOf ?e = 1144/100"
    by (simp add: targetSpeedOf_def divingEnemy_def sampleEnemy_def sampleCtorDraws_def
        EnemyPlane_def getRandomBehaviorState_def states_def Let_def)
  have "vy (position (afterManeuvers sampleView sampleDraws (1/10) ?e))
          \<le> vy (position ?e) + (1144/100) * (1/10)"
    by (rule dive_keeps_sinking)
       (simp_all add: ts, simp_all add: divingEnemy_def sampleEnemy_def sampleCtorDraws_def
         EnemyPlane_def Let_def)
  moreover have "vy (position ?e) = 13" by (simp add: divingEnemy_def)
  moreover have "minAltitude divingEnemy = 15"
    by (simp add: divingEnemy_def sampleEnemy_def EnemyPlane_def Let_def)
  ultimately show ?thesis
    using u by simp
qed

subsection \<open>The player's speed limit\<close>

lemma limitSpeed_bound:
  assumes "0 \<le> m"
  shows "vlength (limitSpeed m v) \<le> m"
proof (cases "vlength v > m")
  case True
  then have "vlength v \<noteq> 0" using assms by simp
  then show ?thesis
    using True assms by (simp add: limitSpeed_def vlength_multiplyScalar vlength_normalize_vec)
next
  case False
  then show ?thesis by (simp add: limitSpeed_def)
qed

lemma flight_speed:
  assumes "0 \<le> maxSpeed p"
  shows "vlength (velocity (flight delta p)) \<le> maxSpeed p"
proof -
  define v2 where
    "v2 = limitSpeed (maxSpeed p) (vadd (velocity p) (flightAcceleration delta (newThrottle delta p) p))"
  define hitGround where "hitGround = (vy (position p) < 1.0 \<and> vy v2 < 0)"
  define v3 where "v3 = (if hitGround then Vec3 (vx v2 * 0.95) 0 (vz v2 * 0.95) else v2)"
  have vel: "velocity (flight delta p) = v3"
    by (simp add: flight_def Let_def v3_def hitGround_def v2_def)
  have b2: "vlength v2 \<le> maxSpeed p"
    unfolding v2_def by (rule limitSpeed_bound [OF assms])
  have "vlength v3 \<le> vlength v2"
    by (cases hitGround) (auto simp: v3_def intro!: vlength_mono)
  then show ?thesis using b2 vel by simp
qed

lemma updateRotation_keeps:
  "velocity (updateRotation delta p) = velocity p"
  "position (updateRotation delta p) = position p"
  "bullets (updateRotation delta p) = bullets p"
  by (simp_all add: updateRotation_def Let_def split: prod.split)

lemma pose_keeps:
  "velocity (pose delta p) = velocity p"
  "position (pose delta p) = position p"
  "bullets (pose delta p) = bullets p"
  by (simp_all add: pose_def Let_def)

lemma shoot_keeps:
  "velocity (shoot t front p) = velocity p"
  "position (shoot t front p) = position p"
  by (simp_all add: shoot_def Let_def)

lemma playerUpdate_velocity:
  "velocity (playerUpdate r rd delta p) = velocity (flight delta p)"
  by (simp add: playerUpdate_def Let_def shoot_keeps pose_keeps updateRotation_keeps)

text \<open>
  C7, as the code has it. The player's speed after \<open>update\<close> is at most \<open>maxSpeed\<close>. An
  enemy has no \<open>maxSpeed\<close>: after \<open>update\<close> its speed is \<open>currentSpeed\<close>, which moves
  toward a target of 0.9 to 1.3 times the base speed and so is at most the larger of its
  previous value and 1.3 times \<open>speed\<close>.
\<close>

theorem speed_bounds:
  "(0 \<le> maxSpeed p \<longrightarrow> vlength (velocity (playerUpdate r rd delta p)) \<le> maxSpeed p) \<and>
   (0 \<le> delta \<and> 0 \<le> speedChangeRate e \<and> 0 \<le> currentSpeed e \<and> 0 \<le> speed e \<and>
    (isDiving e \<longrightarrow> diveTarget e \<noteq> None) \<longrightarrow>
    (\<exists>e'. update g d delta e = Returned e' \<and> vlength (velocity e') = currentSpeed e' \<and>
          currentSpeed e' \<le> max (currentSpeed e) (speed e * 1.3)))"
proof (intro conjI impI)
  assume "0 \<le> maxSpeed p"
  then show "vlength (velocity (playerUpdate r rd delta p)) \<le> maxSpeed p"
    by (simp add: playerUpdate_velocity flight_speed)
next
  assume a: "0 \<le> delta \<and> 0 \<le> speedChangeRate e \<and> 0 \<le> currentSpeed e \<and> 0 \<le> speed e \<and>
    (isDiving e \<longrightarrow> diveTarget e \<noteq> None)"
  then obtain e' where r: "update g d delta e = Returned e'"
    using update_returns [of e g d delta] by blast
  then obtain m where m: "specialManeuvers delta (changeDirection d (wrapAround g e)) = Returned m"
    and e': "e' = afterManeuvers g d delta m"
    using update_Returned by blast
  have "m = state (specialManeuvers delta (changeDirection d (wrapAround g e)))"
    using m by simp
  then have k: "speed m = speed e" "currentSpeed m = currentSpeed e" "speedChangeRate m = speedChangeRate e"
    by (simp_all add: before_keeps)
  have b: "0 \<le> speedStep delta m" "speedStep delta m \<le> max (currentSpeed e) (speed e * 1.3)"
    using speedStep_bounds(1,3) [of delta m] a k by simp_all
  have "currentSpeed e' = speedStep delta m" by (simp add: e' afterManeuvers_currentSpeed)
  moreover have "vlength (velocity e') = \<bar>speedStep delta m\<bar>"
    by (simp add: e' afterManeuvers_velocity_length)
  ultimately show "\<exists>e'. update g d delta e = Returned e' \<and> vlength (velocity e') = currentSpeed e' \<and>
          currentSpeed e' \<le> max (currentSpeed e) (speed e * 1.3)"
    using r b by simp
qed

theorem speed_bounds_witness:
  "0 \<le> maxSpeed Player \<and>
   vlength (velocity (playerUpdate 845 sampleReadings (1/10) Player)) \<le> maxSpeed Player \<and>
   (0::real) \<le> 1/10 \<and> 0 \<le> speedChangeRate sampleEnemy \<and> 0 \<le> currentSpeed sampleEnemy \<and>
   0 \<le> speed sampleEnemy \<and> \<not> isDiving sampleEnemy \<and>
   (\<exists>e'. update sampleView sampleDraws (1/10) sampleEnemy = Returned e' \<and>
         vlength (velocity e') = currentSpeed e' \<and>
         currentSpeed e' \<le> max (currentSpeed sampleEnemy) (speed sampleEnemy * 1.3))"
proof -
  have h1: "0 \<le> maxSpeed Player" by (simp add: Player_def)
  have h2: "(0::real) \<le> 1/10 \<and> 0 \<le> speedChangeRate sampleEnemy \<and> 0 \<le> currentSpeed sampleEnemy \<and>
    0 \<le> speed sampleEnemy \<and> \<not> isDiving sampleEnemy"
    by (simp add: sampleEnemy_def sampleCtorDraws_def EnemyPlane_def Let_def)
  from speed_bounds [where p = Player and e = sampleEnemy and delta = "1/10" and r = 845
      and rd = sampleReadings and g = sampleView and d = sampleDraws] h1 h2
  show ?thesis by blast
qed

lemma fast_before:
  "specialManeuvers (1/10) (changeDirection sampleDraws (wrapAround sampleView fastEnemy)) = Returned fastEnemy"
  by (simp add: specialManeuvers_def changeDirection_def wrapAround_def
      fastEnemy_def sampleEnemy_def sampleView_def sampleDraws_def sampleCtorDraws_def
      EnemyPlane_def Let_def)

text \<open>
  C7 as stated fails for enemies. The only speed an enemy is configured with is its base
  \<open>speed\<close>; an aggressive enemy that has reached it keeps accelerating toward 1.2 times
  that value, and after one update it is faster than its base speed.
\<close>

theorem enemy_speed_counterexample:
  "(case update sampleView sampleDraws (1/10) fastEnemy of
      Returned e' \<Rightarrow> speed e' < vlength (velocity e')
    | Thrown e' \<Rightarrow> False)"
proof -
  let ?e' = "afterManeuvers sampleView sampleDraws (1/10) fastEnemy"
  have u: "update sampleView sampleDraws (1/10) fastEnemy = Returned ?e'"
    by (simp add: update_def fast_before)
  have ts: "targetSpeedOf fastEnemy = speed fastEnemy * 1.2"
    by (simp add: targetSpeedOf_def fastEnemy_def)
  have sp: "speed fastEnemy = 1144/100" "currentSpeed fastEnemy = 1144/100"
    "speedChangeRate fastEnemy = 1/2"
    by (simp_all add: fastEnemy_def sampleEnemy_def sampleCtorDraws_def EnemyPlane_def Let_def)
  have "speedStep (1/10) fastEnemy = 1149/100"
    by (simp add: speedStep_def ts sp)
  then have "vlength (velocity ?e') = 1149/100"
    by (simp add: afterManeuvers_velocity_length)
  moreover have "speed ?e' = 1144/100"
    by (simp add: afterManeuvers_speed sp)
  ultimately show ?thesis by (simp add: u)
qed

section \<open>Boundary wrap of an enemy\<close>

lemma sqrt_one_plus_ratio:
  assumes "x \<noteq> 0"
  shows "sqrt (1 + (z / x)\<^sup>2) = sqrt (x * x + z * z) / \<bar>x\<bar>"
proof -
  have "1 + (z / x)\<^sup>2 = (x * x + z * z) / (x * x)"
    using assms by (simp add: power2_eq_square field_simps)
  then have "sqrt (1 + (z / x)\<^sup>2) = sqrt (x * x + z * z) / sqrt (x * x)"
    by (simp add: real_sqrt_divide)
  then show ?thesis by simp
qed

text \<open>Cosine and sine of the angle that \<open>Math.atan2\<close> returns.\<close>

lemma cos_atan2:
  assumes "x \<noteq> 0 \<or> z \<noteq> 0"
  shows "cos (atan2 z x) = x / sqrt (x * x + z * z)"
proof -
  consider "0 < x" | "x < 0" | "x = 0" by linarith
  then show ?thesis
  proof cases
    case 1
    then show ?thesis
      by (simp add: atan2_def cos_arctan sqrt_one_plus_ratio)
  next
    case 2
    then show ?thesis
      by (simp add: atan2_def cos_arctan sqrt_one_plus_ratio)
  next
    case 3
    then show ?thesis using assms by (simp add: atan2_def)
  qed
qed

lemma sin_atan2:
  assumes "x \<noteq> 0 \<or> z \<noteq> 0"
  shows "sin (atan2 z x) = z / sqrt (x * x + z * z)"
proof -
  consider "0 < x" | "x < 0" | "x = 0" by linarith
  then show ?thesis
  proof cases
    case 1
    then show ?thesis
      by (simp add: atan2_def sin_arctan sqrt_one_plus_ratio)
  next
    case 2
    then show ?thesis
      by (simp add: atan2_def sin_arctan sqrt_one_plus_ratio)
  next
    case 3
    then show ?thesis using assms by (auto simp: atan2_def real_sqrt_mult_self)
  qed
qed

lemma sqrt_sq_scaled:
  assumes "0 < d" "d = sqrt (x * x + z * z)" "0 \<le> k"
  shows "sqrt ((- (x / d) * k) * (- (x / d) * k) + (- (z / d) * k) * (- (z / d) * k)) = k"
proof -
  have "0 \<le> x * x + z * z" by simp
  then have dd: "d * d = x * x + z * z"
    using assms(2) by simp
  have "(x / d) * (x / d) + (z / d) * (z / d) = (x * x + z * z) / (d * d)"
    by (simp add: add_divide_distrib)
  also have "\<dots> = (d * d) / (d * d)" by (simp only: dd)
  also have "\<dots> = 1" using assms(1) by simp
  finally have one: "(x / d) * (x / d) + (z / d) * (z / d) = 1" .
  have "(- (x / d) * k) * (- (x / d) * k) + (- (z / d) * k) * (- (z / d) * k)
          = ((x / d) * (x / d) + (z / d) * (z / d)) * (k * k)"
    by (simp add: algebra_simps)
  also have "\<dots> = k * k" by (simp only: one mult_1)
  finally show ?thesis using assms(3) by simp
qed

lemma wrapAround_beyond:
  assumes "horizontalDistance (position e) > worldRadius g" "0 \<le> worldRadius g"
  shows "position (wrapAround g e) =
           Vec3 (- (vx (position e) / horizontalDistance (position e)) * (worldRadius g * 0.2))
                (vy (position e))
                (- (vz (position e) / horizontalDistance (position e)) * (worldRadius g * 0.2))"
    and "targetDirection (wrapAround g e) =
           normalize_vec (Vec3 (- vx (targetDirection e)) (vy (targetDirection e)) (- vz (targetDirection e)))"
proof -
  let ?x = "vx (position e)" and ?z = "vz (position e)"
  have pos: "0 < sqrt (?x * ?x + ?z * ?z)"
    using assms unfolding horizontalDistance_def by linarith
  then have nz: "?x \<noteq> 0 \<or> ?z \<noteq> 0" by auto
  show "position (wrapAround g e) =
           Vec3 (- (vx (position e) / horizontalDistance (position e)) * (worldRadius g * 0.2))
                (vy (position e))
                (- (vz (position e) / horizontalDistance (position e)) * (worldRadius g * 0.2))"
    using assms(1)
    by (simp add: wrapAround_def Let_def horizontalDistance_def cos_atan2 [OF nz] sin_atan2 [OF nz])
  show "targetDirection (wrapAround g e) =
           normalize_vec (Vec3 (- vx (targetDirection e)) (vy (targetDirection e)) (- vz (targetDirection e)))"
    using assms(1) by (simp add: wrapAround_def Let_def horizontalDistance_def)
qed

lemma dot_reversed:
  "dot (normalize_vec (Vec3 (- vx t) (vy t) (- vz t))) t < 0 \<longleftrightarrow>
     vy t * vy t < vx t * vx t + vz t * vz t"
proof -
  define l where "l = vlength (Vec3 (- vx t) (vy t) (- vz t))"
  define k where "k = 1 / (if l = 0 then 1 else l)"
  have l0: "0 \<le> l" by (simp add: l_def vlength_nonneg)
  then have k: "0 < k" by (auto simp: k_def less_eq_real_def)
  have "normalize_vec (Vec3 (- vx t) (vy t) (- vz t)) = multiplyScalar (Vec3 (- vx t) (vy t) (- vz t)) k"
    by (simp add: normalize_vec_def Let_def k_def l_def)
  then have "dot (normalize_vec (Vec3 (- vx t) (vy t) (- vz t))) t
               = k * (vy t * vy t - (vx t * vx t + vz t * vz t))"
    by (simp add: dot_def multiplyScalar_def algebra_simps)
  then show ?thesis
    using k by (simp add: mult_less_0_iff)
qed

text \<open>
  C5, as the code has it. The first block of \<open>update\<close> puts an enemy that is beyond the
  world radius at distance 0.2 times the radius on the opposite side of the center, at
  the same altitude (the rest of the same update then integrates the position once). Only
  the horizontal components of \<open>targetDirection\<close> are negated before it is renormalised,
  so its dot product with the direction before the wrap is negative exactly when the
  horizontal part of that direction is longer than its vertical part.
\<close>

theorem wrapAround_teleports:
  assumes "horizontalDistance (position e) > worldRadius g" and "0 \<le> worldRadius g"
  shows "horizontalDistance (position (wrapAround g e)) = 0.2 * worldRadius g \<and>
         vx (position (wrapAround g e))
           = - (0.2 * worldRadius g / horizontalDistance (position e)) * vx (position e) \<and>
         vz (position (wrapAround g e))
           = - (0.2 * worldRadius g / horizontalDistance (position e)) * vz (position e) \<and>
         vy (position (wrapAround g e)) = vy (position e) \<and>
         targetDirection (wrapAround g e)
           = normalize_vec (Vec3 (- vx (targetDirection e)) (vy (targetDirection e))
                                 (- vz (targetDirection e))) \<and>
         (dot (targetDirection (wrapAround g e)) (targetDirection e) < 0 \<longleftrightarrow>
            vy (targetDirection e) * vy (targetDirection e)
              < vx (targetDirection e) * vx (targetDirection e)
                + vz (targetDirection e) * vz (targetDirection e))"
proof -
  let ?d = "horizontalDistance (position e)"
  have d: "0 < ?d" using assms by simp
  note w = wrapAround_beyond [OF assms]
  have "horizontalDistance (position (wrapAround g e)) = 0.2 * worldRadius g"
    using sqrt_sq_scaled [of ?d "vx (position e)" "vz (position e)" "worldRadius g * 0.2"] d assms(2)
    by (simp add: w(1) horizontalDistance_def)
  moreover have "vx (position (wrapAround g e)) = - (0.2 * worldRadius g / ?d) * vx (position e)"
    by (simp add: w(1) mult.commute)
  moreover have "vz (position (wrapAround g e)) = - (0.2 * worldRadius g / ?d) * vz (position e)"
    by (simp add: w(1) mult.commute)
  moreover have "vy (position (wrapAround g e)) = vy (position e)"
    by (simp add: w(1))
  moreover have "dot (targetDirection (wrapAround g e)) (targetDirection e) < 0 \<longleftrightarrow>
           vy (targetDirection e) * vy (targetDirection e)
             < vx (targetDirection e) * vx (targetDirection e) + vz (targetDirection e) * vz (targetDirection e)"
    by (simp only: w(2) dot_reversed)
  ultimately show ?thesis using w(2) by blast
qed

lemma stray_distance: "horizontalDistance (position strayEnemy) = 1000"
proof -
  have "sqrt (1000 * 1000) = (1000::real)" by simp
  then show ?thesis by (simp add: strayEnemy_def horizontalDistance_def)
qed

theorem wrapAround_teleports_witness:
  "horizontalDistance (position strayEnemy) > worldRadius sampleView \<and> 0 \<le> worldRadius sampleView \<and>
   horizontalDistance (position (wrapAround sampleView strayEnemy)) = 0.2 * worldRadius sampleView \<and>
   vx (position (wrapAround sampleView strayEnemy)) = - 169 \<and>
   vz (position (wrapAround sampleView strayEnemy)) = 0"
proof -
  have h1: "horizontalDistance (position strayEnemy) > worldRadius sampleView"
    by (simp add: stray_distance sampleView_def)
  have h2: "0 \<le> worldRadius sampleView" by (simp add: sampleView_def)
  have p: "vx (position strayEnemy) = 1000" "vz (position strayEnemy) = 0" "worldRadius sampleView = 845"
    by (simp_all add: strayEnemy_def sampleView_def)
  from wrapAround_teleports [OF h1 h2] h1 h2 show ?thesis
    by (simp add: stray_distance p)
qed

text \<open>
  C5 as stated fails: for a target direction that points straight down the wrap leaves the
  direction as it is, and the dot product with the direction before the wrap is 1.
\<close>

theorem wrapAround_dot_counterexample:
  "horizontalDistance (position strayEnemy) > worldRadius sampleView \<and>
   dot (targetDirection (wrapAround sampleView strayEnemy)) (targetDirection strayEnemy) = 1"
proof -
  have b: "horizontalDistance (position strayEnemy) > worldRadius sampleView"
    by (simp add: stray_distance sampleView_def)
  have r: "0 \<le> worldRadius sampleView" by (simp add: sampleView_def)
  have "targetDirection strayEnemy = Vec3 0 (- 1) 0" by (simp add: strayEnemy_def)
  then have "dot (targetDirection (wrapAround sampleView strayEnemy)) (targetDirection strayEnemy) = 1"
    by (simp add: wrapAround_beyond(2) [OF b r] normalize_vec_def vlength_def lengthSq_def
        multiplyScalar_def dot_def Let_def)
  with b show ?thesis by simp
qed

section \<open>World boundary of the player\<close>


lemma horizontalDistance_sq:
  "horizontalDistance p * horizontalDistance p = vx p * vx p + vz p * vz p"
  by (simp add: horizontalDistance_def)

lemma checkWorldBounds_beyond:
  assumes "horizontalDistance (position p) > r"
  shows "position (checkWorldBounds r p) =
           Vec3 (vx (position p) * (1 - 0.05 * r / horizontalDistance (position p)))
                (vy (position p))
                (vz (position p) * (1 - 0.05 * r / horizontalDistance (position p)))"
  using assms by (simp add: checkWorldBounds_def Let_def horizontalDistance_def algebra_simps)








lemma forceShoot_keeps:
  "position (forceShoot b p) = position p" "velocity (forceShoot b p) = velocity p"
  by (simp_all add: forceShoot_def)









text \<open>
  Between 0.98 and 1.1 times the radius \<open>pushBack\<close> adds the direction to the center times
  0.02 times the radius to the position, after the direction has been scaled by the push
  factor: a player at rest at distance 900 ends the frame beyond the center, at more than
  1620 from it.
\<close>

lemma horizontalDistance_axis: "horizontalDistance (Vec3 x y 0) = \<bar>x\<bar>"
  by (simp add: horizontalDistance_def)

lemma normalize_axis: "x < 0 \<Longrightarrow> normalize_vec (Vec3 x 0 0) = Vec3 (- 1) 0 0"
proof -
  assume x: "x < 0"
  have "vlength (Vec3 x 0 0) = \<bar>x\<bar>" by (simp add: vlength_def lengthSq_def)
  then show ?thesis using x by (simp add: normalize_vec_def Let_def multiplyScalar_def)
qed

lemma pushBack_edge:
  assumes "d > r * 0.98"
  shows "position (pushBack r pr d p) =
           (let dir = multiplyScalar (normalize_vec (Vec3 (- vx (position p)) 0 (- vz (position p))))
                        ((d - pr) * 1.5)
            in Vec3 (vx (position p) + vx dir * (0.02 * r)) (vy (position p))
                    (vz (position p) + vz dir * (0.02 * r)))"
  using assms by (simp add: pushBack_def Let_def applyForce_def)

lemma pushBack_overshoots:
  "(case player (enforceBoundary edgeGame) of
      Some p' \<Rightarrow> horizontalDistance (position edgePlayer) = 900 \<and> horizontalDistance (position p') > 1620
    | None \<Rightarrow> False)"
proof -
  have R: "worldRadius edgeGame = 845" "boundaryPushRadius edgeGame = 760"
    "boundaryWarningRadius edgeGame = 675" "player edgeGame = Some edgePlayer"
    by (simp_all add: edgeGame_def Game_def)
  have pe: "position edgePlayer = Vec3 900 50 0" by (simp add: edgePlayer_def)
  have he: "horizontalDistance (position edgePlayer) = 900"
    by (simp add: pe horizontalDistance_axis)
  then have b: "horizontalDistance (position edgePlayer) > 845" by simp
  let ?p1 = "checkWorldBounds 845 edgePlayer"
  have p1: "position ?p1 = Vec3 (3431 / 4) 50 0"
    using checkWorldBounds_beyond [OF b] by (simp add: pe horizontalDistance_axis)
  have s1: "sqrt (vx (position ?p1) * vx (position ?p1) + vz (position ?p1) * vz (position ?p1)) = 3431 / 4"
    using horizontalDistance_axis [of "3431 / 4" 50] by (simp add: p1 horizontalDistance_def)
  let ?p2 = "pushBack 845 760 (3431 / 4) ?p1"
  have n: "normalize_vec (Vec3 (- vx (position ?p1)) 0 (- vz (position ?p1))) = Vec3 (- 1) 0 0"
    unfolding p1 vec3.sel using normalize_axis [of "- (3431 / 4)"] by simp
  have "position ?p2 = Vec3 (3431 / 4 + (- ((3431 / 4 - 760) * 1.5)) * (0.02 * 845)) 50 0"
    using pushBack_edge [of 845 "3431 / 4" 760 ?p1] unfolding n Let_def
    by (simp add: p1 multiplyScalar_def)
  then have p2: "position ?p2 = Vec3 (- (259234 / 160)) 50 0" by simp
  have "enforceBoundary edgeGame = updateBoundaryEffects (edgeGame\<lparr>player := Some ?p1\<rparr>)"
    by (simp add: enforceBoundary_def R)
  also have "\<dots> = edgeGame\<lparr>player := Some ?p1, boundaryWarningActive := True,
                          player := Some (forceShoot (keysPressed edgeGame '' '') ?p2)\<rparr>"
    unfolding updateBoundaryEffects_def Let_def by (simp add: R s1)
  finally have "player (enforceBoundary edgeGame) = Some (forceShoot (keysPressed edgeGame '' '') ?p2)"
    by simp
  moreover have "horizontalDistance (position (forceShoot (keysPressed edgeGame '' '') ?p2)) > 1620"
    by (simp add: forceShoot_keeps p2 horizontalDistance_axis)
  ultimately show ?thesis using he by simp
qed

section \<open>Bullets\<close>

lemma moveBullets_inside:
  "b \<in> set (moveBullets r delta bs) \<Longrightarrow> mesh b = Some p \<Longrightarrow> r \<noteq> 0 \<Longrightarrow> \<not> horizontalDistance p > r"
  by (induction bs) (auto simp: Let_def horizontalDistance_def split: option.splits if_splits)

lemma moveBullets_createdAt:
  "createdAt ` set (moveBullets r delta bs) \<subseteq> createdAt ` set bs"
  by (induction bs) (auto simp: Let_def split: option.splits if_splits)

lemma moveBullets_sorted:
  "sorted (map createdAt bs) \<Longrightarrow> sorted (map createdAt (moveBullets r delta bs))"
proof (induction bs)
  case Nil
  then show ?case by simp
next
  case (Cons b bs)
  then have s: "sorted (map createdAt (moveBullets r delta bs))" by simp
  have le: "\<forall>x \<in> set (moveBullets r delta bs). createdAt b \<le> createdAt x"
    using Cons.prems moveBullets_createdAt [of r delta bs] by auto
  show ?case using s le by (auto simp: Let_def split: option.splits)
qed

lemma expireBullets_subset: "set (expireBullets t bs) \<subseteq> set bs"
  by (induction bs) (auto simp: Let_def split: option.splits)

lemma expireBullets_young:
  "b \<in> set (expireBullets t bs) \<Longrightarrow> mesh b = Some p \<Longrightarrow> \<not> t - createdAt b > 3"
  by (induction bs) (auto simp: Let_def split: option.splits if_splits)

lemma expireBullets_sorted:
  "sorted (map createdAt bs) \<Longrightarrow> sorted (map createdAt (expireBullets t bs))"
proof (induction bs)
  case Nil
  then show ?case by simp
next
  case (Cons b bs)
  then have s: "sorted (map createdAt (expireBullets t bs))" by simp
  have le: "\<forall>x \<in> set (expireBullets t bs). createdAt b \<le> createdAt x"
    using Cons.prems expireBullets_subset [of t bs] by auto
  show ?case using s le by (auto simp: Let_def split: option.splits)
qed

lemma limitBullets_drop: "limitBullets bs = drop (length bs - MAX_BULLETS) bs"
  by (simp add: limitBullets_def Let_def)

lemma limitBullets_length: "length (limitBullets bs) \<le> MAX_BULLETS"
  by (simp add: limitBullets_drop)

lemma sorted_take_drop:
  assumes "sorted (map f xs)" "e \<in> set (take n xs)" "k \<in> set (drop n xs)"
  shows "f e \<le> f k"
proof -
  have "sorted (map f (take n xs) @ map f (drop n xs))"
    using assms(1) by (simp flip: map_append)
  then show ?thesis using assms(2,3) by (auto simp: sorted_append)
qed

lemma sampleBullets_run: "updateBullets 845 10 (1/10) sampleBullets = [freshBullet]"
  by (simp add: updateBullets_def limitBullets_def MAX_BULLETS_def sampleBullets_def
      freshBullet_def Let_def)

section \<open>Yaw of the player\<close>

lemma js_rem_full: "0 < b \<Longrightarrow> js_rem b b = 0"
  by (simp add: js_rem_def trunc_def)

lemma js_rem_small_neg: "0 < a \<Longrightarrow> a < b \<Longrightarrow> js_rem (- a) b = - a"
proof -
  assume a: "0 < a" "a < b"
  then have "0 \<le> a / b" "a / b < 1" by simp_all
  then have "\<lfloor>a / b\<rfloor> = 0" by (simp add: floor_eq_iff)
  moreover have "\<not> 0 \<le> - a / b" using a by (simp add: field_simps)
  ultimately show ?thesis by (simp add: js_rem_def trunc_def)
qed

lemma first_frame: "rotation (updateRotation (1/10) startPlayer) = Euler 0 (- pi) 0"
proof -
  have "js_rem (pi + pi) (pi * 2) = 0" using js_rem_full [of "pi * 2"] by (simp add: mult.commute)
  then show ?thesis
    by (simp add: updateRotation_def startPlayer_def Player_def Let_def)
qed

lemma yaw_amount: "min ((1/10) * 2 * (3/10)) (pi / 8 * (1/10)) = pi / 80"
proof -
  have "pi < 4" by (rule pi_less_4)
  then show ?thesis by (simp add: min_def)
qed

text \<open>
  C9 fails on the code. The first frame turns the initial yaw \<open>pi\<close> into \<open>- pi\<close>, and a
  turn to the right from there leaves the yaw at \<open>- pi - pi / 80\<close>, below \<open>- pi\<close>: the
  remainder of a negative dividend is negative, so the wrap at line 385 does not bring a
  yaw below \<open>- pi\<close> back into the range that its comment names.
\<close>

theorem yaw_escapes:
  "ey (rotation (updateRotation (1/10) startPlayer)) = - pi \<and>
   ey (rotation (updateRotation (1/10) turningPlayer)) = - pi - pi / 80 \<and>
   - pi - pi / 80 < - pi"
proof -
  have r: "rotation turningPlayer = Euler 0 (- pi) 0"
    by (simp add: turningPlayer_def first_frame)
  have c: "\<not> left (controls turningPlayer)" "right (controls turningPlayer)"
    "\<not> up (controls turningPlayer)" "\<not> down (controls turningPlayer)"
    by (simp_all add: turningPlayer_def Player_def)
  have s: "speed turningPlayer = 10" "minSpeed turningPlayer = 5" "yawRate turningPlayer = 3/10"
    by (simp_all add: turningPlayer_def updateRotation_def startPlayer_def Player_def Let_def split: prod.split)
  have m: "js_rem (- (pi / 80)) (pi * 2) = - (pi / 80)"
    by (rule js_rem_small_neg) simp_all
  have "ey (rotation (updateRotation (1/10) turningPlayer)) = js_rem (- pi + - 1 * (pi / 80) + pi) (pi * 2) - pi"
    using yaw_amount by (simp add: updateRotation_def Let_def r c s split: prod.split)
  then have "ey (rotation (updateRotation (1/10) turningPlayer)) = - pi - pi / 80"
    using m by simp
  then show ?thesis by (simp add: first_frame)
qed

section \<open>Destruction of an enemy\<close>

text \<open>
  First what \<open>damage\<close>, \<open>createNewEnemy\<close>, \<open>releaseBirds\<close> and \<open>handleEnemyDestruction\<close>
  change, then the loop over the bullets, by induction on the number of bullets still to
  visit. The recursion equations of the loops are applied by hand.
\<close>

lemma damage_keeps:
  "ident (damage a r1 r2 r3 e) = ident e"
  "position (damage a r1 r2 r3 e) = position e"
  "health (damage a r1 r2 r3 e) = health e - a"
  by (simp_all add: damage_def startEvasiveManeuvers_def Let_def)

lemma createNewEnemy_facts:
  "enemies (createNewEnemy d g) = enemies g @ [last (enemies (createNewEnemy d g))]"
  "ident (last (enemies (createNewEnemy d g))) = spawned g"
  "health (last (enemies (createNewEnemy d g))) = 150"
  "length (enemies (createNewEnemy d g)) = Suc (length (enemies g))"
  "spawned (createNewEnemy d g) = Suc (spawned g)"
  "effectsToUpdate (createNewEnemy d g) = effectsToUpdate g"
  "player (createNewEnemy d g) = player g"
  "rescuedBirds (createNewEnemy d g) = rescuedBirds g"
  "gameOver (createNewEnemy d g) = gameOver g"
  "maxEnemies (createNewEnemy d g) = maxEnemies g"
  by (simp_all add: createNewEnemy_def EnemyPlane_def Let_def)

lemma createNewEnemy_idents:
  "map ident (enemies (createNewEnemy d g)) = map ident (enemies g) @ [spawned g]"
  by (simp add: createNewEnemy_def EnemyPlane_def Let_def)

lemma releaseBirds_facts:
  "enemies (releaseBirds ds pos c g) = enemies g"
  "spawned (releaseBirds ds pos c g) = spawned g"
  "effectsToUpdate (releaseBirds ds pos c g) = effectsToUpdate g"
  "player (releaseBirds ds pos c g) = player g"
  "rescuedBirds (releaseBirds ds pos c g) = rescuedBirds g + c"
  "gameOver (releaseBirds ds pos c g) = gameOver g"
  "maxEnemies (releaseBirds ds pos c g) = maxEnemies g"
  by (simp_all add: releaseBirds_def)

lemma released_nonneg: "0 \<le> released f index g"
  by (simp add: released_def Let_def)

lemma handleEnemyDestruction_facts:
  assumes "player g = Some p"
  shows "map ident (enemies (handleEnemyDestruction f e i g)) = removeAt i (map ident (enemies g)) @ [spawned g]"
  "length (enemies (handleEnemyDestruction f e i g)) = Suc (length (removeAt i (enemies g)))"
  "spawned (handleEnemyDestruction f e i g) = Suc (spawned g)"
  "effectsToUpdate (handleEnemyDestruction f e i g) = effectsToUpdate g @ [Explosion (createClock f)]"
  "player (handleEnemyDestruction f e i g) = player g"
  "rescuedBirds (handleEnemyDestruction f e i g) = rescuedBirds g + released f i g"
  "gameOver (handleEnemyDestruction f e i g) = gameOver g"
  "maxEnemies (handleEnemyDestruction f e i g) = maxEnemies g"
  using assms
  by (simp_all add: handleEnemyDestruction_def createNewEnemy_facts(4-) createNewEnemy_idents
        releaseBirds_facts createExplosion_def removeAt_def released_def Let_def
        take_map drop_map)

lemma hitCount_snoc:
  "hitCount ep (xs @ [b]) = hitCount ep xs + (if inRange ep b then 1 else 0)"
  by (simp add: hitCount_def)

lemma take_removeAt: "j \<le> length xs \<Longrightarrow> take j (removeAt j xs) = take j xs"
  by (simp add: removeAt_def)

lemma length_removeAt: "j < length xs \<Longrightarrow> length (removeAt j xs) = length xs - 1"
  by (simp add: removeAt_def)

lemma explosions_hit: "explosions (createHitIndicator t g) = explosions g"
  by (simp add: explosions_def createHitIndicator_def isExplosion_def)

lemma map_ident_update:
  "ident e' = ident (xs ! i) \<Longrightarrow> map ident (xs[i := e']) = map ident xs"
  by (cases "i < length xs") (simp_all add: map_update list_update_same_conv list_update_beyond)

lemma removeAt_update: "removeAt i (xs[i := y]) = removeAt i xs"
  by (simp add: removeAt_def)

lemma handleEnemyDestruction_enemies:
  assumes "player g = Some p"
  shows "\<exists>n. enemies (handleEnemyDestruction f e i g) = removeAt i (enemies g) @ [n]
             \<and> ident n = spawned g \<and> health n = 150"
  using assms
  by (simp add: handleEnemyDestruction_def createNewEnemy_def EnemyPlane_def
        releaseBirds_def createExplosion_def removeAt_def Let_def)

declare bulletLoop.simps(2) [simp del]

lemma bulletLoop_outcome:
  "i < length (enemies g) \<Longrightarrow> player g = Some p \<Longrightarrow> n \<le> length (bullets p)
   \<Longrightarrow> 0 < health (enemies g ! i)
   \<Longrightarrow> (if health (enemies g ! i) \<le> 25 * real (hitCount (position (enemies g ! i)) (take n (bullets p)))
        then destroyedAt f i g (bulletLoop f i n g)
        else survivesAt i (25 * real (hitCount (position (enemies g ! i)) (take n (bullets p)))) g (bulletLoop f i n g))"
proof (induction n arbitrary: g p)
  case 0
  have "(enemies g)[i := enemies g ! i] = enemies g" by simp
  then show ?case using "0.prems"(4) by (auto simp: hitCount_def survivesAt_def intro!: exI [of _ "enemies g ! i"])
next
  case (Suc j)
  let ?e = "enemies g ! i"
  let ?b = "bullets p ! j"
  have j: "j < length (bullets p)" using Suc.prems by simp
  have tk: "take (Suc j) (bullets p) = take j (bullets p) @ [?b]"
    using j by (simp add: take_Suc_conv_app_nth)
  show ?case
  proof (cases "inRange (position ?e) ?b")
    case False
    then have "bulletLoop f i (Suc j) g = bulletLoop f i j g"
      using Suc.prems j by (simp add: bulletLoop.simps(2) inRange_def Let_def split: option.splits)
    moreover have "hitCount (position ?e) (take (Suc j) (bullets p)) = hitCount (position ?e) (take j (bullets p))"
      using False by (simp add: tk hitCount_snoc)
    ultimately show ?thesis using Suc.IH [of g p] Suc.prems by simp
  next
    case True
    then obtain bp where bp: "mesh ?b = Some bp" by (auto simp: inRange_def split: option.splits)
    obtain rHit rDur rDir where hd: "hitDraws f i j = (rHit, rDur, rDir)" by (cases "hitDraws f i j")
    let ?e' = "damage 25 rHit rDur rDir ?e"
    let ?p2 = "p\<lparr>bullets := removeAt j (bullets p)\<rparr>"
    let ?g2 = "(createHitIndicator (createClock f) g)\<lparr>enemies := (enemies g)[i := ?e'], player := Some ?p2\<rparr>"
    have step: "bulletLoop f i (Suc j) g =
        (if health ?e' \<le> 0 then handleEnemyDestruction f ?e' i ?g2 else bulletLoop f i j ?g2)"
      using Suc.prems j True bp hd
      by (simp add: bulletLoop.simps(2) inRange_def Let_def createHitIndicator_def)
    have cnt: "hitCount (position ?e) (take (Suc j) (bullets p)) = Suc (hitCount (position ?e) (take j (bullets p)))"
      using True by (simp add: tk hitCount_snoc)
    have g2: "explosions ?g2 = explosions g" "spawned ?g2 = spawned g"
      "enemies ?g2 = (enemies g)[i := ?e']" "enemies ?g2 ! i = ?e'"
      "player ?g2 = Some ?p2" "length (enemies ?g2) = length (enemies g)"
      "rescuedBirds ?g2 = rescuedBirds g" "released f i ?g2 = released f i g"
      using Suc.prems(1)
      by (simp_all add: explosions_def createHitIndicator_def isExplosion_def released_def)
    show ?thesis
    proof (cases "health ?e' \<le> 0")
      case True
      have "destroyedAt f i ?g2 (handleEnemyDestruction f ?e' i ?g2)"
        unfolding destroyedAt_def
        using handleEnemyDestruction_facts(3,4,6) [OF g2(5), of f ?e' i]
          handleEnemyDestruction_enemies [OF g2(5), of f ?e' i]
        by (simp add: explosions_def isExplosion_def)
      then have "destroyedAt f i g (bulletLoop f i (Suc j) g)"
        using True step g2(1,2,7,8) unfolding destroyedAt_def g2(3) removeAt_update by simp
      moreover have "health ?e \<le> 25 * real (hitCount (position ?e) (take (Suc j) (bullets p)))"
        using True by (simp add: cnt damage_keeps)
      ultimately show ?thesis by simp
    next
      case False
      have a: "i < length (enemies ?g2)" using Suc.prems(1) g2(6) by simp
      have b: "j \<le> length (bullets ?p2)" using j by (simp add: length_removeAt)
      have c: "0 < health (enemies ?g2 ! i)" using False unfolding g2(4) by simp
      note ih = Suc.IH [OF a g2(5) b c, unfolded g2(4)]
      have tk2: "take j (bullets ?p2) = take j (bullets p)" using j by (simp add: take_removeAt)
      have pos: "position ?e' = position ?e" by (simp add: damage_keeps)
      have hl: "health ?e' = health ?e - 25" by (simp add: damage_keeps)
      let ?N = "hitCount (position ?e) (take j (bullets p))"
      have res: "bulletLoop f i (Suc j) g = bulletLoop f i j ?g2"
        unfolding step using False by simp
      show ?thesis
      proof (cases "health ?e' \<le> 25 * real ?N")
        case True
        with ih have "destroyedAt f i ?g2 (bulletLoop f i j ?g2)"
          unfolding tk2 pos by simp
        then have "destroyedAt f i g (bulletLoop f i j ?g2)"
          using g2(1,2,7,8) unfolding destroyedAt_def g2(3) removeAt_update by simp
        moreover have "health ?e \<le> 25 * real (Suc ?N)"
          using True by (simp add: hl)
        ultimately show ?thesis unfolding cnt res by simp
      next
        case False
        with ih have "survivesAt i (25 * real ?N) ?g2 (bulletLoop f i j ?g2)"
          unfolding tk2 pos by simp
        then have "survivesAt i (25 * real (Suc ?N)) g (bulletLoop f i j ?g2)"
          using g2(1,2,7) Suc.prems(1) unfolding survivesAt_def g2(3)
          by (auto simp: hl damage_keeps algebra_simps)
        moreover have "\<not> health ?e \<le> 25 * real (Suc ?N)"
          using False by (simp add: hl)
        ultimately show ?thesis unfolding cnt res by simp
      qed
    qed
  qed
qed

lemma nth_notin_removeAt:
  assumes "distinct xs" "i < length xs"
  shows "xs ! i \<notin> set (removeAt i xs)"
proof -
  have "xs = take i xs @ xs ! i # drop (Suc i) xs"
    using assms(2) by (simp add: id_take_nth_drop [symmetric])
  then have "distinct (take i xs @ xs ! i # drop (Suc i) xs)" using assms(1) by simp
  then show ?thesis by (auto simp: removeAt_def)
qed

lemma set_removeAt: "set (removeAt i xs) \<subseteq> set xs"
  by (auto simp: removeAt_def dest: in_set_takeD in_set_dropD)

lemma distinct_removeAt:
  assumes "distinct xs"
  shows "distinct (removeAt i xs)"
  using assms set_take_disj_set_drop_if_distinct [OF assms, of i "Suc i"]
  by (simp add: removeAt_def)

lemma fresh_removeAt:
  fixes s :: nat
  assumes "distinct xs" "\<forall>n \<in> set xs. n < s"
  shows "distinct (removeAt i xs @ [s])" and "\<forall>k \<in> set (removeAt i xs @ [s]). k < Suc s"
proof -
  have sub: "set (removeAt i xs) \<subseteq> set xs" by (rule set_removeAt)
  have "s \<notin> set xs" using assms(2) by auto
  with sub have "s \<notin> set (removeAt i xs)" by blast
  then show "distinct (removeAt i xs @ [s])" using distinct_removeAt [OF assms(1), of i] by simp
  show "\<forall>k \<in> set (removeAt i xs @ [s]). k < Suc s"
    using sub assms(2) by (auto simp: less_Suc_eq)
qed

lemma checkBulletHits_loop:
  "player g = Some p \<Longrightarrow> checkBulletHits f i g = bulletLoop f i (length (bullets p)) g"
  by (simp add: checkBulletHits_def)

lemma duelGame_facts:
  "enemies duelGame = [sampleEnemy\<lparr>health := 50\<rparr>]"
  "player duelGame = Some (startPlayer\<lparr>bullets := volley\<rparr>)"
  "spawned duelGame = 1"
  "explosions duelGame = 0"
  by (simp_all add: duelGame_def Game_def explosions_def)

lemma sampleEnemy_facts: "position sampleEnemy = Vec3 60 50 80" "ident sampleEnemy = 0"
  by (simp_all add: sampleEnemy_def EnemyPlane_def Let_def)

lemma volley_hits: "hitCount (Vec3 60 50 80) volley = 2"
  by (simp add: hitCount_def volley_def inRange_def freshBullet_def enemyRadius_def)

lemma duelGame_fresh: "freshIdents duelGame"
  by (simp add: freshIdents_def duelGame_facts sampleEnemy_facts)

text \<open>
  C1. Take an enemy of the list with health \<open>H > 0\<close> and let \<open>N\<close> be the number of the
  player's bullets within range of it when \<open>checkBulletHits\<close> is called for it; every hit
  does 25 damage. If \<open>25 * N\<close> reaches \<open>H\<close>, the call destroys the enemy once: the effects
  gain exactly one explosion, exactly one enemy is constructed, the list keeps its length (the
  replacement is there in the same tick), and the destroyed enemy is no longer in the
  list, whose members stay distinct and numbered below the count of constructed enemies, so
  it cannot be destroyed again. Otherwise nothing is destroyed or constructed and the enemy
  stays in the list with health \<open>H - 25 * N\<close>, so hits add up over several calls.
\<close>

theorem enemy_destroyed_once:
  assumes i: "i < length (enemies g)"
    and pl: "player g = Some p"
    and alive: "0 < health (enemies g ! i)"
    and fresh: "freshIdents g"
  shows "let e = enemies g ! i;
             N = hitCount (position e) (bullets p);
             g' = checkBulletHits f i g
         in if health e \<le> 25 * real N then
              explosions g' = explosions g + 1
              \<and> spawned g' = spawned g + 1
              \<and> length (enemies g') = length (enemies g)
              \<and> ident e \<notin> set (map ident (enemies g'))
              \<and> freshIdents g'
            else
              explosions g' = explosions g
              \<and> spawned g' = spawned g
              \<and> map ident (enemies g') = map ident (enemies g)
              \<and> health (enemies g' ! i) = health e - 25 * real N"
proof -
  let ?e = "enemies g ! i"
  let ?N = "hitCount (position ?e) (bullets p)"
  let ?g' = "checkBulletHits f i g"
  let ?ids = "map ident (enemies g)"
  have out: "if health ?e \<le> 25 * real ?N then destroyedAt f i g ?g'
             else survivesAt i (25 * real ?N) g ?g'"
    using bulletLoop_outcome [OF i pl order_refl alive, of f]
    by (simp add: checkBulletHits_loop [OF pl] cong: if_cong)
  have d: "distinct ?ids" and b: "\<forall>n \<in> set ?ids. n < spawned g"
    using fresh by (auto simp: freshIdents_def list_all_iff)
  show ?thesis
  proof (cases "health ?e \<le> 25 * real ?N")
    case True
    with out have "destroyedAt f i g ?g'" by simp
    then obtain n where ex: "explosions ?g' = Suc (explosions g)" and sp: "spawned ?g' = Suc (spawned g)"
      and en: "enemies ?g' = removeAt i (enemies g) @ [n]" and idn: "ident n = spawned g"
      by (auto simp: destroyedAt_def)
    have ids: "map ident (enemies ?g') = removeAt i ?ids @ [spawned g]"
      by (simp add: en idn removeAt_def take_map drop_map)
    have len: "length (enemies ?g') = length (enemies g)"
      using i by (simp add: en removeAt_def)
    have e_id: "ident ?e = ?ids ! i" using i by simp
    have "?ids ! i \<in> set ?ids" using i by simp
    with b have "?ids ! i \<noteq> spawned g" by auto
    then have gone: "ident ?e \<notin> set (map ident (enemies ?g'))"
      using nth_notin_removeAt [OF d, of i] i unfolding ids e_id by simp
    have "distinct (map ident (enemies ?g'))"
      unfolding ids by (rule fresh_removeAt(1) [OF d b])
    moreover have "\<forall>k \<in> set (map ident (enemies ?g')). k < spawned ?g'"
      unfolding ids sp by (rule fresh_removeAt(2) [OF d b])
    ultimately have "freshIdents ?g'" by (auto simp: freshIdents_def list_all_iff)
    with True ex sp len gone show ?thesis by (simp add: Let_def)
  next
    case False
    with out have "survivesAt i (25 * real ?N) g ?g'" by simp
    then obtain e' where "explosions ?g' = explosions g" "spawned ?g' = spawned g"
      "enemies ?g' = (enemies g)[i := e']" "ident e' = ident ?e" "health e' = health ?e - 25 * real ?N"
      by (auto simp: survivesAt_def)
    with False i show ?thesis by (simp add: Let_def map_ident_update)
  qed
qed

theorem enemy_destroyed_once_witness:
  "0 < length (enemies duelGame)
   \<and> player duelGame = Some (startPlayer\<lparr>bullets := volley\<rparr>)
   \<and> 0 < health (enemies duelGame ! 0)
   \<and> freshIdents duelGame
   \<and> health (enemies duelGame ! 0) = 25 * real (hitCount (position (enemies duelGame ! 0)) volley)
   \<and> explosions (checkBulletHits sampleFrame 0 duelGame) = 1
   \<and> spawned (checkBulletHits sampleFrame 0 duelGame) = 2
   \<and> length (enemies (checkBulletHits sampleFrame 0 duelGame)) = 1
   \<and> 0 \<notin> set (map ident (enemies (checkBulletHits sampleFrame 0 duelGame)))
   \<and> freshIdents (checkBulletHits sampleFrame 0 duelGame)"
  using enemy_destroyed_once [of 0 duelGame "startPlayer\<lparr>bullets := volley\<rparr>" sampleFrame]
  by (simp add: duelGame_facts sampleEnemy_facts volley_hits duelGame_fresh Let_def)

subsection \<open>The enemy list over a tick\<close>

text \<open>
  \<open>updateEnemies\<close> keeps the length of the list through its loop, and the loop at its end
  fills the list up to \<open>maxEnemies\<close>.
\<close>

lemma progress_refl: "progress g g"
  by (simp add: progress_def)

lemma progress_trans: "progress a b \<Longrightarrow> progress b c \<Longrightarrow> progress a c"
  by (auto simp: progress_def)

lemma progress_createNewEnemy: "progress g (createNewEnemy d g)"
  by (simp add: progress_def createNewEnemy_def Let_def)

lemma handleEnemyDestruction_progress: "progress g (handleEnemyDestruction f e i g)"
  by (simp add: progress_def handleEnemyDestruction_def createNewEnemy_def releaseBirds_def
        createExplosion_def Let_def split: option.split)

lemma handleEnemyDestruction_length:
  assumes "i < length (enemies g)"
  shows "length (enemies (handleEnemyDestruction f e i g)) = length (enemies g)"
proof -
  have "Suc (length (enemies g) - Suc 0) = length (enemies g)" using assms by simp
  then show ?thesis
    using assms
    by (simp add: handleEnemyDestruction_def createNewEnemy_def releaseBirds_def
          createExplosion_def Let_def split: option.split)
qed

lemma bulletLoop_progress:
  "i < length (enemies g) \<Longrightarrow>
     progress g (bulletLoop f i n g) \<and> length (enemies (bulletLoop f i n g)) = length (enemies g)"
proof (induction n arbitrary: g)
  case 0
  then show ?case by (simp add: progress_refl)
next
  case (Suc j)
  show ?case
  proof (cases "player g")
    case None
    then show ?thesis by (simp add: bulletLoop.simps(2) progress_refl)
  next
    case (Some p)
    let ?e = "enemies g ! i"
    show ?thesis
    proof (cases "j < length (bullets p) \<and> inRange (position ?e) (bullets p ! j)")
      case False
      then have "bulletLoop f i (Suc j) g = bulletLoop f i j g"
        using Some by (auto simp: bulletLoop.simps(2) inRange_def Let_def split: option.splits)
      then show ?thesis using Suc.IH [OF Suc.prems] by simp
    next
      case True
      then obtain bp where bp: "mesh (bullets p ! j) = Some bp"
        by (auto simp: inRange_def split: option.splits)
      obtain rHit rDur rDir where hd: "hitDraws f i j = (rHit, rDur, rDir)" by (cases "hitDraws f i j")
      let ?e' = "damage 25 rHit rDur rDir ?e"
      let ?g2 = "(createHitIndicator (createClock f) g)\<lparr>enemies := (enemies g)[i := ?e'],
                    player := Some (p\<lparr>bullets := removeAt j (bullets p)\<rparr>)\<rparr>"
      have step: "bulletLoop f i (Suc j) g =
          (if health ?e' \<le> 0 then handleEnemyDestruction f ?e' i ?g2 else bulletLoop f i j ?g2)"
        using Some True bp hd
        by (simp add: bulletLoop.simps(2) inRange_def Let_def createHitIndicator_def)
      have p2: "progress g ?g2" by (simp add: progress_def createHitIndicator_def)
      have l2: "length (enemies ?g2) = length (enemies g)" by simp
      have i2: "i < length (enemies ?g2)" using Suc.prems by simp
      show ?thesis
      proof (cases "health ?e' \<le> 0")
        case True
        then have "bulletLoop f i (Suc j) g = handleEnemyDestruction f ?e' i ?g2"
          unfolding step by simp
        moreover have "progress g (handleEnemyDestruction f ?e' i ?g2)"
          by (rule progress_trans [OF p2 handleEnemyDestruction_progress])
        moreover have "length (enemies (handleEnemyDestruction f ?e' i ?g2)) = length (enemies g)"
          using handleEnemyDestruction_length [OF i2, of f ?e'] by simp
        ultimately show ?thesis by simp
      next
        case False
        then have "bulletLoop f i (Suc j) g = bulletLoop f i j ?g2"
          unfolding step by simp
        moreover have "progress g (bulletLoop f i j ?g2)"
          using Suc.IH [OF i2] by (auto intro: progress_trans [OF p2])
        moreover have "length (enemies (bulletLoop f i j ?g2)) = length (enemies g)"
          using Suc.IH [OF i2] by simp
        ultimately show ?thesis by simp
      qed
    qed
  qed
qed

lemma checkBulletHits_progress:
  assumes "i < length (enemies g)"
  shows "progress g (checkBulletHits f i g)"
    and "length (enemies (checkBulletHits f i g)) = length (enemies g)"
  using bulletLoop_progress [OF assms]
  by (simp_all add: checkBulletHits_def progress_refl split: option.split)

declare enemyLoop.simps(2) [simp del]

lemma enemyLoop_progress:
  "progress g (state (enemyLoop f delta n g))
   \<and> length (enemies (state (enemyLoop f delta n g))) = length (enemies g)"
proof (induction n arbitrary: g)
  case 0
  then show ?case by (simp add: progress_refl)
next
  case (Suc i)
  show ?case
  proof (cases "i < length (enemies g)")
    case False
    then show ?thesis using Suc.IH [of g] by (simp add: enemyLoop.simps(2))
  next
    case True
    show ?thesis
    proof (cases "update (view g) (enemyDraws f i) delta (enemies g ! i)")
      case (Thrown e')
      then show ?thesis using True by (simp add: enemyLoop.simps(2) progress_def)
    next
      case (Returned e')
      let ?g1 = "g\<lparr>enemies := (enemies g)[i := syncMesh e']\<rparr>"
      have p1: "progress g ?g1" by (simp add: progress_def)
      have i1: "i < length (enemies ?g1)" using True by simp
      show ?thesis
      proof (cases "health (syncMesh e') \<le> 0")
        case True
        then have "enemyLoop f delta (Suc i) g = enemyLoop f delta i (handleEnemyDestruction f (syncMesh e') i ?g1)"
          using Returned \<open>i < length (enemies g)\<close> by (simp add: enemyLoop.simps(2) Let_def)
        moreover have "progress g (handleEnemyDestruction f (syncMesh e') i ?g1)"
          by (rule progress_trans [OF p1 handleEnemyDestruction_progress])
        moreover have "length (enemies (handleEnemyDestruction f (syncMesh e') i ?g1)) = length (enemies g)"
          using handleEnemyDestruction_length [OF i1, of f "syncMesh e'"] by simp
        ultimately show ?thesis
          using Suc.IH [of "handleEnemyDestruction f (syncMesh e') i ?g1"] progress_trans
          by (simp only:)
      next
        case False
        then have "enemyLoop f delta (Suc i) g = enemyLoop f delta i (checkBulletHits f i ?g1)"
          using Returned \<open>i < length (enemies g)\<close> by (simp add: enemyLoop.simps(2) Let_def)
        moreover have "progress g (checkBulletHits f i ?g1)"
          by (rule progress_trans [OF p1 checkBulletHits_progress(1) [OF i1]])
        moreover have "length (enemies (checkBulletHits f i ?g1)) = length (enemies g)"
          using checkBulletHits_progress(2) [OF i1, of f] by simp
        ultimately show ?thesis
          using Suc.IH [of "checkBulletHits f i ?g1"] progress_trans
          by (simp only:)
      qed
    qed
  qed
qed

declare refill.simps [simp del]

lemma refill_progress:
  "progress g (refill f g) \<and> length (enemies (refill f g)) = max (length (enemies g)) (maxEnemies g)"
proof (induction f g rule: refill.induct)
  case (1 f g)
  show ?case
  proof (cases "length (enemies g) < maxEnemies g")
    case True
    let ?g1 = "createNewEnemy (refillDraws f (length (enemies g))) g"
    have r: "refill f g = refill f ?g1" using True by (subst refill.simps) simp
    have l: "length (enemies ?g1) = Suc (length (enemies g))" "maxEnemies ?g1 = maxEnemies g"
      by (simp_all add: createNewEnemy_def Let_def)
    have "progress g (refill f ?g1)"
      using 1 [OF True] by (auto intro: progress_trans [OF progress_createNewEnemy])
    moreover have "length (enemies (refill f ?g1)) = max (length (enemies g)) (maxEnemies g)"
      using 1 [OF True] True unfolding l by (simp add: max_def)
    ultimately show ?thesis unfolding r by simp
  next
    case False
    then have "refill f g = g" by (subst refill.simps) simp
    then show ?thesis using False by (simp add: progress_refl max_def)
  qed
qed


lemma updateEnemies_population:
  assumes "updateEnemies f delta g = Returned g'"
  shows "length (enemies g') = max (length (enemies g)) (maxEnemies g)"
proof -
  obtain g1 where g1: "enemyLoop f delta (length (enemies g)) g = Returned g1" and g': "g' = refill f g1"
    using assms by (auto simp: updateEnemies_def split: outcome.splits)
  have "length (enemies g1) = length (enemies g)" "maxEnemies g1 = maxEnemies g"
    using enemyLoop_progress [of g f delta "length (enemies g)"] g1 by (simp_all add: progress_def)
  then show ?thesis using refill_progress [of g1 f] g' by simp
qed

section \<open>Rescued animals and victory\<close>













lemma game_update_unfold:
  "game_update f delta g0 =
     (let g = updateEffects (effectsClock f) g0
      in if paused g \<or> gameOver g then Returned g
         else if rescuedBirds g \<ge> 100 then Returned (showVictoryScreen (g\<lparr>gameOver := True\<rparr>))
         else if snd (updatePlayer f delta g) then Returned (fst (updatePlayer f delta g))
         else (case updateEnemies f delta (fst (updatePlayer f delta g)) of
                 Thrown g2 \<Rightarrow> Thrown g2
               | Returned g2 \<Rightarrow> Returned (updateBoundaryEffects (updateBirds f delta g2))))"
  by (simp add: game_update_def Let_def case_prod_beta)




lemma animate_state: "\<not> gameOver g \<Longrightarrow> animate f g = state (game_update f (min (elapsed f) 0.1) g)"
  by (simp add: animate_def Let_def split: outcome.split)

lemma animate_over: "gameOver g \<Longrightarrow> animate f g = updateEffects (effectsClock f) g"
  by (simp add: animate_def Let_def)












subsection \<open>A crash in the frame of the hundredth rescue\<close>





















lemma flight_keeps:
  "bullets (flight delta p) = bullets p" "controls (flight delta p) = controls p"
  by (simp_all add: flight_def Let_def)




lemma crash_state:
  "gameOver (crash t m g)" "screens (crash t m g) = screens g @ [GameOverScreen m]"
  "player (crash t m g) = player g" "enemies (crash t m g) = enemies g"
  "rescuedBirds (crash t m g) = rescuedBirds g" "birds (crash t m g) = birds g"
  "maxBirds (crash t m g) = maxBirds g" "worldRadius (crash t m g) = worldRadius g"
  "paused (crash t m g) = paused g"
  by (simp_all add: crash_def showGameOverScreen_def createExplosion_def)









section \<open>The bullet list over a run\<close>

text \<open>
  The loops of \<open>updateBullets\<close> as filters, for a list whose entries all have a mesh, and
  what keeps a list in firing order: \<open>shoot\<close> appends a bullet with a mesh and the current
  clock reading, \<open>updateBullets\<close> and the hit test of the game only take entries out.
\<close>

lemma moved_keeps: "createdAt (moved delta b) = createdAt b" "hasMesh (moved delta b) = hasMesh b"
  by (simp_all add: moved_def hasMesh_def split: option.split)

lemma moveBullets_filter:
  "list_all hasMesh bs \<Longrightarrow> moveBullets r delta bs = filter (inWorld r) (map (moved delta) bs)"
  by (induction bs)
     (auto simp: hasMesh_def moved_def inWorld_def horizontalDistance_def Let_def split: option.splits)

lemma expireBullets_filter:
  "list_all hasMesh bs \<Longrightarrow> expireBullets t bs = filter (young t) bs"
  by (induction bs) (auto simp: hasMesh_def young_def Let_def split: option.splits)

lemma list_all_filter: "list_all P xs \<Longrightarrow> list_all P (filter Q xs)"
  by (simp add: list_all_iff)

lemma list_all_drop: "list_all P xs \<Longrightarrow> list_all P (drop n xs)"
  by (auto simp: list_all_iff dest: in_set_dropD)

lemma survivors_filter:
  assumes "list_all hasMesh bs"
  shows "survivors r t delta bs = filter (young t) (filter (inWorld r) (map (moved delta) bs))"
proof -
  have "list_all hasMesh (map (moved delta) bs)"
    using assms by (simp add: list_all_iff moved_keeps)
  then have "list_all hasMesh (filter (inWorld r) (map (moved delta) bs))" by (rule list_all_filter)
  then show ?thesis
    using assms by (simp add: survivors_def moveBullets_filter expireBullets_filter)
qed

lemma firingOrder_filter: "firingOrder t bs \<Longrightarrow> firingOrder t (filter P bs)"
  by (simp add: firingOrder_def list_all_filter sorted_filter)

lemma firingOrder_drop: "firingOrder t bs \<Longrightarrow> firingOrder t (drop n bs)"
  by (simp add: firingOrder_def list_all_drop sorted_wrt_drop drop_map [symmetric])

lemma firingOrder_moved: "firingOrder t bs \<Longrightarrow> firingOrder t (map (moved delta) bs)"
  by (simp add: firingOrder_def list_all_iff moved_keeps comp_def)

lemma firingOrder_later: "firingOrder t bs \<Longrightarrow> t \<le> t' \<Longrightarrow> firingOrder t' bs"
  by (auto simp: firingOrder_def list_all_iff)

lemma firingOrder_removeAt: "firingOrder t bs \<Longrightarrow> firingOrder t (removeAt i bs)"
proof -
  assume a: "firingOrder t bs"
  have s: "set (removeAt i bs) \<subseteq> set bs" by (rule set_removeAt)
  have "map createdAt (removeAt i bs) = removeAt i (map createdAt bs)"
    by (simp add: removeAt_def take_map drop_map)
  moreover have "sorted (removeAt i xs)" if "sorted xs" for xs :: "real list"
  proof -
    have "sorted (take i xs @ drop i xs)" using that by simp
    then have c: "\<forall>x \<in> set (take i xs). \<forall>y \<in> set (drop i xs). x \<le> y"
      unfolding sorted_append by blast
    have "set (drop (Suc i) xs) \<subseteq> set (drop i xs)"
      by (rule set_drop_subset_set_drop) simp
    with c have "\<forall>x \<in> set (take i xs). \<forall>y \<in> set (drop (Suc i) xs). x \<le> y" by blast
    moreover have "sorted (take i xs)" "sorted (drop (Suc i) xs)"
      using that by (simp_all add: sorted_wrt_take sorted_wrt_drop)
    ultimately show ?thesis by (simp add: removeAt_def sorted_append)
  qed
  ultimately show ?thesis using a s by (auto simp: firingOrder_def list_all_iff)
qed

lemma shoot_firingOrder:
  assumes "firingOrder t (bullets p)" "t \<le> t'"
  shows "firingOrder t' (bullets (shoot t' front p))"
proof -
  have l: "firingOrder t' (bullets p)" by (rule firingOrder_later [OF assms])
  then have "\<forall>b \<in> set (bullets p). createdAt b \<le> t'" by (simp add: firingOrder_def list_all_iff)
  then show ?thesis
    using l by (auto simp: shoot_def Let_def firingOrder_def hasMesh_def sorted_append)
qed

lemma updateBullets_firingOrder:
  assumes "firingOrder c bs"
  shows "firingOrder c (updateBullets r t delta bs)"
proof -
  have m: "list_all hasMesh bs" using assms by (simp add: firingOrder_def)
  have "firingOrder c (survivors r t delta bs)"
    unfolding survivors_filter [OF m]
    by (intro firingOrder_filter firingOrder_moved assms)
  then show ?thesis
    by (simp add: updateBullets_def limitBullets_drop firingOrder_drop flip: survivors_def)
qed

lemma playerUpdate_firingOrder:
  assumes "firingOrder t (bullets p)" "t \<le> shotClock rd"
  shows "firingOrder (shotClock rd) (bullets (playerUpdate r rd delta p))"
proof -
  let ?p1 = "pose delta (updateRotation delta (flight delta p))"
  have b: "bullets ?p1 = bullets p" "bullets (flight delta p) = bullets p"
    by (simp_all add: pose_keeps updateRotation_keeps flight_keeps)
  have "firingOrder (shotClock rd) (bullets (if shootKey (controls ?p1)
            then shoot (shotClock rd) (frontPosition rd) ?p1 else ?p1))"
    using shoot_firingOrder [of t ?p1 "shotClock rd" "frontPosition rd"] assms
      firingOrder_later [OF assms]
    by (simp add: b)
  then show ?thesis
    by (simp add: playerUpdate_def Let_def updateBullets_firingOrder)
qed

lemma Player_firingOrder: "firingOrder t (bullets Player)"
  by (simp add: firingOrder_def Player_def)

text \<open>
  From the start of the game on, the player's list is in firing order after every frame,
  as long as the clock does not go back.
\<close>

lemma armed_later: "armed t g \<Longrightarrow> t \<le> t' \<Longrightarrow> armed t' g"
  by (auto simp: armed_def firingOrder_later split: option.splits)

lemma armed_player: "player g' = player g \<Longrightarrow> armed t g' = armed t g"
  by (simp add: armed_def)

lemma handleKey_armed: "armed t (handleKey k g) = armed t g"
  by (cases k)
     (auto simp: armed_def player_handleKeyDown_def player_handleKeyUp_def split: option.splits)

lemma handleKeys_armed: "armed t (fold handleKey ks g) = armed t g"
  by (induction ks arbitrary: g) (simp_all add: handleKey_armed)

lemma checkWorldBounds_bullets: "bullets (checkWorldBounds r p) = bullets p"
  by (simp add: checkWorldBounds_def Let_def)

lemma updatePlayer_armed:
  assumes "armed t g" "t \<le> shotClock (playerReadings f)"
  shows "armed (shotClock (playerReadings f)) (fst (updatePlayer f delta g))"
proof (cases "player g")
  case None
  then show ?thesis by (simp add: updatePlayer_def armed_def)
next
  case (Some p)
  let ?p2 = "checkWorldBounds (worldRadius g) (playerUpdate (worldRadius g) (playerReadings f) delta p)"
  have "firingOrder (shotClock (playerReadings f)) (bullets ?p2)"
    using assms Some by (simp add: checkWorldBounds_bullets playerUpdate_firingOrder armed_def)
  moreover have "player (fst (updatePlayer f delta g)) = Some ?p2"
    using Some
    by (simp add: updatePlayer_def Let_def checkTerrainCollisions_def crash_state
          showGameOverScreen_def createExplosion_def)
  ultimately show ?thesis by (simp add: armed_def)
qed

lemma handleEnemyDestruction_player: "player (handleEnemyDestruction f e i g) = player g"
  by (simp add: handleEnemyDestruction_def createNewEnemy_def releaseBirds_def
        createExplosion_def Let_def split: option.split)

lemma bulletLoop_armed: "armed t g \<Longrightarrow> armed t (bulletLoop f i n g)"
proof (induction n arbitrary: g)
  case 0
  then show ?case by simp
next
  case (Suc j)
  show ?case
  proof (cases "player g")
    case None
    then show ?thesis using Suc.prems by (simp add: bulletLoop.simps(2))
  next
    case (Some p)
    let ?e = "enemies g ! i"
    show ?thesis
    proof (cases "j < length (bullets p) \<and> inRange (position ?e) (bullets p ! j)")
      case False
      then have "bulletLoop f i (Suc j) g = bulletLoop f i j g"
        using Some by (auto simp: bulletLoop.simps(2) inRange_def Let_def split: option.splits)
      then show ?thesis using Suc.IH [OF Suc.prems] by simp
    next
      case True
      then obtain bp where bp: "mesh (bullets p ! j) = Some bp"
        by (auto simp: inRange_def split: option.splits)
      obtain rHit rDur rDir where hd: "hitDraws f i j = (rHit, rDur, rDir)" by (cases "hitDraws f i j")
      let ?e' = "damage 25 rHit rDur rDir ?e"
      let ?g2 = "(createHitIndicator (createClock f) g)\<lparr>enemies := (enemies g)[i := ?e'],
                    player := Some (p\<lparr>bullets := removeAt j (bullets p)\<rparr>)\<rparr>"
      have step: "bulletLoop f i (Suc j) g =
          (if health ?e' \<le> 0 then handleEnemyDestruction f ?e' i ?g2 else bulletLoop f i j ?g2)"
        using Some True bp hd
        by (simp add: bulletLoop.simps(2) inRange_def Let_def createHitIndicator_def)
      have a2: "armed t ?g2"
        using Suc.prems Some by (simp add: armed_def firingOrder_removeAt)
      show ?thesis
      proof (cases "health ?e' \<le> 0")
        case True
        then show ?thesis
          unfolding step using a2 armed_player [OF handleEnemyDestruction_player, of t f ?e' i ?g2]
          by simp
      next
        case False
        then show ?thesis unfolding step using Suc.IH [OF a2] by simp
      qed
    qed
  qed
qed

lemma checkBulletHits_armed: "armed t g \<Longrightarrow> armed t (checkBulletHits f i g)"
  by (simp add: checkBulletHits_def bulletLoop_armed split: option.split)

lemma enemyLoop_armed: "armed t g \<Longrightarrow> armed t (state (enemyLoop f delta n g))"
proof (induction n arbitrary: g)
  case 0
  then show ?case by simp
next
  case (Suc i)
  show ?case
  proof (cases "i < length (enemies g)")
    case False
    then show ?thesis using Suc.IH [OF Suc.prems] by (simp add: enemyLoop.simps(2))
  next
    case True
    show ?thesis
    proof (cases "update (view g) (enemyDraws f i) delta (enemies g ! i)")
      case (Thrown e')
      then show ?thesis using True Suc.prems by (simp add: enemyLoop.simps(2) armed_def)
    next
      case (Returned e')
      let ?g1 = "g\<lparr>enemies := (enemies g)[i := syncMesh e']\<rparr>"
      have a1: "armed t ?g1" using Suc.prems by (simp add: armed_def)
      show ?thesis
      proof (cases "health (syncMesh e') \<le> 0")
        case True
        then have "enemyLoop f delta (Suc i) g
            = enemyLoop f delta i (handleEnemyDestruction f (syncMesh e') i ?g1)"
          using Returned \<open>i < length (enemies g)\<close> by (simp add: enemyLoop.simps(2) Let_def)
        moreover have "armed t (handleEnemyDestruction f (syncMesh e') i ?g1)"
          using a1 armed_player [OF handleEnemyDestruction_player, of t f "syncMesh e'" i ?g1] by simp
        ultimately show ?thesis using Suc.IH by simp
      next
        case False
        then have "enemyLoop f delta (Suc i) g = enemyLoop f delta i (checkBulletHits f i ?g1)"
          using Returned \<open>i < length (enemies g)\<close> by (simp add: enemyLoop.simps(2) Let_def)
        then show ?thesis using Suc.IH [OF checkBulletHits_armed [OF a1]] by simp
      qed
    qed
  qed
qed

lemma refill_player: "player (refill f g) = player g"
proof (induction f g rule: refill.induct)
  case (1 f g)
  show ?case
  proof (cases "length (enemies g) < maxEnemies g")
    case True
    then have "refill f g = refill f (createNewEnemy (refillDraws f (length (enemies g))) g)"
      by (subst refill.simps) simp
    then show ?thesis using 1 [OF True] by (simp add: createNewEnemy_def Let_def)
  next
    case False
    then show ?thesis by (subst refill.simps) simp
  qed
qed

lemma updateEnemies_armed: "armed t g \<Longrightarrow> armed t (state (updateEnemies f delta g))"
  using enemyLoop_armed [of t g f delta "length (enemies g)"]
  by (cases "enemyLoop f delta (length (enemies g)) g")
     (simp_all add: updateEnemies_def armed_player [OF refill_player])

lemma updateBoundaryEffects_armed: "armed t (updateBoundaryEffects g) = armed t g"
  by (simp add: armed_def updateBoundaryEffects_def Let_def safetyTeleport_def pushBack_def
        forceShoot_def applyForce_def split: option.split)

lemma updateBirds_player: "player (updateBirds f delta g) = player g"
  by (simp add: updateBirds_def Let_def)

lemma updateEffects_player: "player (updateEffects t g) = player g"
  by (simp add: updateEffects_def Let_def)

lemma game_update_armed:
  assumes "armed t g" "t \<le> shotClock (playerReadings f)"
  shows "armed (shotClock (playerReadings f)) (state (game_update f delta g))"
proof -
  let ?c = "shotClock (playerReadings f)"
  let ?g = "updateEffects (effectsClock f) g"
  have a: "armed t ?g" using assms(1) by (simp add: armed_player [OF updateEffects_player])
  then have l: "armed ?c ?g" using assms(2) by (rule armed_later)
  have a1: "armed ?c (fst (updatePlayer f delta ?g))" by (rule updatePlayer_armed [OF a assms(2)])
  have e: "armed ?c (state (updateEnemies f delta (fst (updatePlayer f delta ?g))))"
    by (rule updateEnemies_armed [OF a1])
  have tail: "armed ?c G \<Longrightarrow> armed ?c (updateBoundaryEffects (updateBirds f delta G))" for G
    by (simp add: updateBoundaryEffects_armed armed_player [OF updateBirds_player])
  show ?thesis
    using l a1 e tail
    by (cases "updateEnemies f delta (fst (updatePlayer f delta ?g))")
       (simp_all add: game_update_unfold Let_def showVictoryScreen_def armed_def)
qed

lemma frameStep_armed:
  assumes "armed t g" "t \<le> shotClock (playerReadings f)"
  shows "armed (shotClock (playerReadings f)) (frameStep g f)"
proof -
  let ?k = "fold handleKey (events f) g"
  have k: "armed t ?k" using assms(1) by (simp add: handleKeys_armed)
  show ?thesis
  proof (cases "gameOver ?k")
    case True
    then show ?thesis
      using armed_later [OF k assms(2)]
      by (simp add: frameStep_def animate_over armed_player [OF updateEffects_player])
  next
    case False
    then show ?thesis
      using game_update_armed [OF k assms(2)] by (simp add: frameStep_def animate_state)
  qed
qed

lemma run_armed: "armed t g \<Longrightarrow> ascending t fs \<Longrightarrow> armed (lastClock t fs) (run fs g)"
proof (induction fs arbitrary: t g)
  case Nil
  then show ?case by (simp add: run_def)
next
  case (Cons f fs)
  then have "armed (shotClock (playerReadings f)) (frameStep g f)"
    by (simp add: frameStep_armed)
  then have "armed (lastClock (shotClock (playerReadings f)) fs) (run fs (frameStep g f))"
    using Cons by simp
  then show ?case by (simp add: run_def)
qed

lemma Game_armed: "armed t Game"
  by (simp add: armed_def Game_def firingOrder_def Player_def)

lemma burst_order: "firingOrder 10 burst"
  by (simp add: firingOrder_def burst_def hasMesh_def freshBullet_def sorted_append list_all_iff)

lemma burst_survivors:
  "filter (young 10) (filter (inWorld 845) (map (moved (1/10)) burst))
     = replicate 2 (freshBullet\<lparr>createdAt := 8\<rparr>) @ replicate 20 freshBullet"
  by (simp add: burst_def moved_def young_def inWorld_def freshBullet_def horizontalDistance_def)

text \<open>
  C8. For a bullet list in firing order, \<open>updateBullets\<close> leaves at most \<open>MAX_BULLETS = 20\<close>
  entries. What is left before the cap is exactly the moved bullets that are within the
  world radius and not older than 3 seconds, in their order: a bullet is taken out if and
  only if it is too far or too old. The cap then drops entries from the front of that list.
  The result is again in firing order; every bullet in it has a mesh, is at most 3 seconds
  old and lies within the world radius (when the radius is not zero); and no bullet that the
  cap evicts was created later than one it keeps.
\<close>

theorem updateBullets_invariants:
  assumes "firingOrder c bs"
  shows "length (updateBullets r t delta bs) \<le> MAX_BULLETS
     \<and> survivors r t delta bs = filter (young t) (filter (inWorld r) (map (moved delta) bs))
     \<and> updateBullets r t delta bs
         = drop (length (survivors r t delta bs) - MAX_BULLETS) (survivors r t delta bs)
     \<and> firingOrder c (updateBullets r t delta bs)
     \<and> (\<forall>b \<in> set (updateBullets r t delta bs). \<exists>p. mesh b = Some p
           \<and> \<not> t - createdAt b > 3 \<and> (r \<noteq> 0 \<longrightarrow> \<not> horizontalDistance p > r))
     \<and> (\<forall>e \<in> set (take (length (survivors r t delta bs) - MAX_BULLETS) (survivors r t delta bs)).
         \<forall>k \<in> set (updateBullets r t delta bs). createdAt e \<le> createdAt k)"
proof -
  let ?s = "survivors r t delta bs"
  have m: "list_all hasMesh bs" and so: "sorted (map createdAt bs)"
    using assms by (simp_all add: firingOrder_def)
  have s: "?s = filter (young t) (filter (inWorld r) (map (moved delta) bs))"
    by (rule survivors_filter [OF m])
  have u: "updateBullets r t delta bs = drop (length ?s - MAX_BULLETS) ?s"
    by (simp add: updateBullets_def survivors_def limitBullets_drop)
  have f: "firingOrder c (updateBullets r t delta bs)"
    by (rule updateBullets_firingOrder [OF assms])
  have each: "\<exists>p. mesh b = Some p \<and> \<not> t - createdAt b > 3 \<and> (r \<noteq> 0 \<longrightarrow> \<not> horizontalDistance p > r)"
    if "b \<in> set (updateBullets r t delta bs)" for b
  proof -
    from that have "b \<in> set ?s" unfolding u by (rule in_set_dropD)
    then have "young t b" "inWorld r b" unfolding s by simp_all
    moreover have "hasMesh b" using f that by (simp add: firingOrder_def list_all_iff)
    ultimately show ?thesis by (auto simp: young_def inWorld_def hasMesh_def)
  qed
  have "sorted (map createdAt ?s)"
    using so by (simp add: survivors_def expireBullets_sorted moveBullets_sorted)
  then have order: "createdAt e \<le> createdAt k"
    if "e \<in> set (take (length ?s - MAX_BULLETS) ?s)" "k \<in> set (updateBullets r t delta bs)" for e k
    using that unfolding u by (rule sorted_take_drop)
  show ?thesis
    using limitBullets_length [of "expireBullets t (moveBullets r delta bs)"] s u f each order
    by (simp add: updateBullets_def)
qed

theorem updateBullets_invariants_witness:
  "firingOrder 10 burst \<and> length burst = 22
   \<and> updateBullets 845 10 (1/10) burst = replicate 20 freshBullet
   \<and> length (updateBullets 845 10 (1/10) burst) \<le> MAX_BULLETS
   \<and> firingOrder 10 (updateBullets 845 10 (1/10) burst)"
proof -
  note t = updateBullets_invariants [OF burst_order, of 845 10 "1/10"]
  have s: "survivors 845 10 (1/10) burst
             = replicate 2 (freshBullet\<lparr>createdAt := 8\<rparr>) @ replicate 20 freshBullet"
    using t burst_survivors by simp
  have "updateBullets 845 10 (1/10) burst
          = drop (length (survivors 845 10 (1/10) burst) - MAX_BULLETS) (survivors 845 10 (1/10) burst)"
    using t by simp
  then have u: "updateBullets 845 10 (1/10) burst = replicate 20 freshBullet"
    unfolding s by (simp add: MAX_BULLETS_def)
  have l: "length burst = 22" by (simp add: burst_def)
  from t have len: "length (updateBullets 845 10 (1/10) burst) \<le> MAX_BULLETS"
    and fo: "firingOrder 10 (updateBullets 845 10 (1/10) burst)" by blast+
  show ?thesis by (intro conjI burst_order l u len fo)
qed

end
